theory Spec2Isabelle
  imports Main "HOL-Library.Word"
begin

section \<open>The virtual semaphore (runtime/CVSemaphore.h)\<close>

text \<open>
  \<^verbatim>\<open>CVSemaphore\<close> (used in the runtime under the name \<^verbatim>\<open>VSem\<close>) keeps two C++
  \<^verbatim>\<open>int\<close> fields, \<^verbatim>\<open>count_\<close> and \<^verbatim>\<open>maxCount_\<close>, behind a mutex and a condition
  variable (the selectors \<open>count\<close> and \<open>maxCount\<close> here; a name cannot end in an
  underscore). The two fields are 32-bit words read as two's complement (\<open>sint\<close>).
  Every access to \<^verbatim>\<open>count_\<close> happens with the mutex held, so each critical section is
  one atomic step of the model. The field \<open>signals\<close> is a history variable: the
  number of \<^verbatim>\<open>pthread_cond_signal\<close> calls made on \<^verbatim>\<open>condition_\<close> so far.
  Overflow of a signed \<^verbatim>\<open>int\<close>, which C++ leaves undefined, wraps around here; none of
  the statements below reaches it.
\<close>

type_synonym int32 = "32 word"

record CVSemaphore =
  count :: int32
  maxCount :: int32
  signals :: nat

text \<open>The two constructors: \<^verbatim>\<open>CVSemaphore(int count=0)\<close> and
  \<^verbatim>\<open>CVSemaphore(int count, int maxCount)\<close>. Neither looks at the sign of its arguments.\<close>

definition CVSemaphore_1 :: "int32 \<Rightarrow> CVSemaphore" where
  "CVSemaphore_1 c = \<lparr>count = c, maxCount = 0, signals = 0\<rparr>"

definition CVSemaphore_2 :: "int32 \<Rightarrow> int32 \<Rightarrow> CVSemaphore" where
  "CVSemaphore_2 c m = \<lparr>count = c, maxCount = m, signals = 0\<rparr>"

text \<open>
  \<^verbatim>\<open>release()\<close>: one critical section. The increment is guarded, the signal is not.
\<close>

definition release :: "CVSemaphore \<Rightarrow> CVSemaphore" where
  "release s =
     (let s' = (if maxCount s = 0 \<or> sint (count s) < sint (maxCount s)
                then s\<lparr>count := count s + 1\<rparr> else s)
      in s'\<lparr>signals := Suc (signals s')\<rparr>)"

text \<open>\<^verbatim>\<open>tryAcquire()\<close>: one critical section, never waits.\<close>

definition tryAcquire :: "CVSemaphore \<Rightarrow> bool \<times> CVSemaphore" where
  "tryAcquire s =
     (if 0 < sint (count s) then (True, s\<lparr>count := count s - 1\<rparr>) else (False, s))"

text \<open>
  \<^verbatim>\<open>acquire()\<close>: \<^verbatim>\<open>while(count_ <= 0) pthread_cond_wait(...); --count_; return true;\<close>

  \<^verbatim>\<open>pthread_cond_wait\<close> gives the mutex up while the caller sleeps, so other threads run
  their critical sections in between. The second argument lists, for each return of
  \<^verbatim>\<open>pthread_cond_wait\<close> (a signal or a spurious wake-up), the semaphore as the caller
  finds it when it holds the mutex again. When the list is used up and the loop condition
  still holds, the caller sleeps for good: the call does not return, which is \<open>None\<close>.
\<close>

fun acquire :: "CVSemaphore \<Rightarrow> CVSemaphore list \<Rightarrow> (bool \<times> CVSemaphore) option" where
  "acquire s [] =
     (if sint (count s) \<le> 0 then None else Some (True, s\<lparr>count := count s - 1\<rparr>))"
| "acquire s (w # ws) =
     (if sint (count s) \<le> 0 then acquire w ws else Some (True, s\<lparr>count := count s - 1\<rparr>))"


subsection \<open>Histories of operations\<close>

text \<open>
  Several threads use one semaphore. Because every critical section runs with the mutex
  held, an execution is a sequence of critical sections, and a history lists them in the
  order in which they took the mutex. \<open>OpAcquire\<close> is a thread that evaluates the loop
  condition of \<^verbatim>\<open>acquire()\<close> under the mutex, on entry or after a wake-up: it either
  leaves the loop and returns, or it goes (back) to sleep, which is the result \<open>Blocked\<close>.
\<close>

datatype op = OpAcquire | OpTryAcquire | OpRelease

datatype result = Blocked | Returned bool | Done

fun exec_op :: "op \<Rightarrow> CVSemaphore \<Rightarrow> result \<times> CVSemaphore" where
  "exec_op OpAcquire s =
     (case acquire s [] of None \<Rightarrow> (Blocked, s) | Some r \<Rightarrow> (Returned (fst r), snd r))"
| "exec_op OpTryAcquire s = (Returned (fst (tryAcquire s)), snd (tryAcquire s))"
| "exec_op OpRelease s = (Done, release s)"

fun run :: "op list \<Rightarrow> CVSemaphore \<Rightarrow> result list \<times> CVSemaphore" where
  "run [] s = ([], s)"
| "run (x # xs) s =
     (fst (exec_op x s) # fst (run xs (snd (exec_op x s))), snd (run xs (snd (exec_op x s))))"

definition releases :: "op list \<Rightarrow> nat" where
  "releases xs = length (filter (\<lambda>x. x = OpRelease) xs)"

text \<open>What each operation answers while the count is not positive.\<close>

fun while_blocked :: "op \<Rightarrow> result" where
  "while_blocked OpAcquire = Blocked"
| "while_blocked OpTryAcquire = Returned False"
| "while_blocked OpRelease = Done"

text \<open>
  A call of \<^verbatim>\<open>acquire()\<close> that waits, together with the other threads: between two
  returns of its \<^verbatim>\<open>pthread_cond_wait\<close> the other threads run the critical sections of
  one segment. \<open>wakeups hs s\<close> lists the semaphore as the waiting caller finds it after
  each segment of \<open>hs\<close>, starting from \<open>s\<close>; it is the second argument of \<open>acquire\<close>.
\<close>

fun wakeups :: "op list list \<Rightarrow> CVSemaphore \<Rightarrow> CVSemaphore list" where
  "wakeups [] s = []"
| "wakeups (h # hs) s = snd (run h s) # wakeups hs (snd (run h s))"

section \<open>The runtime facade (runtime/runtime.cpp)\<close>

text \<open>
  \<^verbatim>\<open>class Synch\<close> wraps one semaphore: \<^verbatim>\<open>Synch(int count) : sem_(-count)\<close>,
  \<^verbatim>\<open>release()\<close> is \<^verbatim>\<open>sem_.release()\<close> and \<^verbatim>\<open>await()\<close> is \<^verbatim>\<open>sem_.acquire()\<close>.
\<close>

definition Synch :: "int32 \<Rightarrow> CVSemaphore" where
  "Synch c = CVSemaphore_1 (- c)"

text \<open>
  \<^verbatim>\<open>struct FuncArg { Synch* synch; int n; }\<close>, built by \<^verbatim>\<open>FuncArg(Synch* synch, int n)\<close>:
  two fields. \<^verbatim>\<open>struct TaskArg { Synch* futureSync; uint32_t depth; }\<close> is the head of
  the argument block of a task; only \<^verbatim>\<open>futureSync\<close> is ever written by the runtime.
\<close>

type_synonym addr = nat

datatype FuncArg = FuncArg (FuncArg_synch: addr) (FuncArg_n: int32)

text \<open>
  The heap of the runtime: the \<^verbatim>\<open>Synch\<close> objects, the \<^verbatim>\<open>FuncArg\<close> objects, the
  \<^verbatim>\<open>futureSync\<close> field of each task argument block, the items pushed on
  \<^verbatim>\<open>_threadPool\<close>, and the next address \<^verbatim>\<open>new\<close> hands out.
\<close>

datatype Runtime = Runtime
  (synchs: "(addr \<times> CVSemaphore) list")
  (funcArgs: "(addr \<times> FuncArg) list")
  (futureSyncs: "(addr \<times> addr) list")
  (threadPool: "(addr \<times> addr \<times> int32) list")
  (next_addr: addr)

text \<open>
  Modelled from the spec: \<^verbatim>\<open>ThreadPool::push\<close> (ThreadPool.h is not among the sources).
  The spec: "push(fn, arg, priority) -- enqueue a work item". The model keeps the pushed
  items in push order and says nothing about the order in which workers take them.
\<close>

definition ThreadPool_push ::
  "addr \<Rightarrow> addr \<Rightarrow> int32 \<Rightarrow> (addr \<times> addr \<times> int32) list \<Rightarrow> (addr \<times> addr \<times> int32) list" where
  "ThreadPool_push fn arg priority q = q @ [(fn, arg, priority)]"

text \<open>\<^verbatim>\<open>void* __ares_create_synch(uint32_t count) { return new Synch(count - 1); }\<close>\<close>

definition ares_create_synch :: "int32 \<Rightarrow> Runtime \<Rightarrow> addr \<times> Runtime" where
  "ares_create_synch c rt =
     (next_addr rt,
      Runtime ((next_addr rt, Synch (c - 1)) # synchs rt) (funcArgs rt) (futureSyncs rt)
        (threadPool rt) (Suc (next_addr rt)))"

text \<open>
  \<^verbatim>\<open>void __ares_queue_func(void* synch, void* fp, uint32_t index, uint32_t priority)\<close>:
  four parameters; it pushes \<^verbatim>\<open>fp\<close> with a fresh \<^verbatim>\<open>FuncArg(synch, index)\<close>.
\<close>

definition ares_queue_func :: "addr \<Rightarrow> addr \<Rightarrow> int32 \<Rightarrow> int32 \<Rightarrow> Runtime \<Rightarrow> Runtime" where
  "ares_queue_func synch fp index priority rt =
     Runtime (synchs rt) ((next_addr rt, FuncArg synch index) # funcArgs rt) (futureSyncs rt)
       (ThreadPool_push fp (next_addr rt) priority (threadPool rt)) (Suc (next_addr rt))"

text \<open>
  \<^verbatim>\<open>__ares_finish_func(arg)\<close>: \<^verbatim>\<open>a->synch->release(); delete a;\<close>. A pointer that is not a
  live \<^verbatim>\<open>FuncArg\<close>, or whose \<^verbatim>\<open>synch\<close> is not live, has no defined behaviour: \<open>None\<close>.
\<close>

definition ares_finish_func :: "addr \<Rightarrow> Runtime \<Rightarrow> Runtime option" where
  "ares_finish_func arg rt =
     (case map_of (funcArgs rt) arg of
        None \<Rightarrow> None
      | Some a \<Rightarrow>
         (case map_of (synchs rt) (FuncArg_synch a) of
            None \<Rightarrow> None
          | Some s \<Rightarrow>
              Some (Runtime ((FuncArg_synch a, release s) # synchs rt)
                      (filter (\<lambda>p. fst p \<noteq> arg) (funcArgs rt)) (futureSyncs rt)
                      (threadPool rt) (next_addr rt))))"

text \<open>
  \<^verbatim>\<open>__ares_await_synch(synch)\<close>: \<^verbatim>\<open>s->await(); delete s;\<close>. The wake-ups of the wait inside
  \<^verbatim>\<open>acquire()\<close> are the second argument; a call that never returns is \<open>None\<close>.
\<close>

definition ares_await_synch :: "addr \<Rightarrow> CVSemaphore list \<Rightarrow> Runtime \<Rightarrow> Runtime option" where
  "ares_await_synch synch wakes rt =
     (case map_of (synchs rt) synch of
        None \<Rightarrow> None
      | Some s \<Rightarrow>
         (case acquire s wakes of
            None \<Rightarrow> None
          | Some r \<Rightarrow>
              Some (Runtime (filter (\<lambda>p. fst p \<noteq> synch) (synchs rt)) (funcArgs rt)
                      (futureSyncs rt) (threadPool rt) (next_addr rt))))"

text \<open>
  \<^verbatim>\<open>__ares_task_queue(funcPtr, argsPtr)\<close>: \<^verbatim>\<open>args->futureSync = new Synch(0);\<close> then
  \<^verbatim>\<open>_threadPool->push(func, args, 0)\<close>. \<^verbatim>\<open>__ares_task_await_future\<close> awaits that
  \<^verbatim>\<open>Synch\<close> and \<^verbatim>\<open>__ares_task_release_future\<close> releases it; neither frees anything.
\<close>

definition ares_task_queue :: "addr \<Rightarrow> addr \<Rightarrow> Runtime \<Rightarrow> Runtime" where
  "ares_task_queue funcPtr argsPtr rt =
     Runtime ((next_addr rt, Synch 0) # synchs rt) (funcArgs rt)
       ((argsPtr, next_addr rt) # futureSyncs rt)
       (ThreadPool_push funcPtr argsPtr 0 (threadPool rt)) (Suc (next_addr rt))"

definition ares_task_await_future :: "addr \<Rightarrow> CVSemaphore list \<Rightarrow> Runtime \<Rightarrow> Runtime option" where
  "ares_task_await_future argsPtr wakes rt =
     (case map_of (futureSyncs rt) argsPtr of
        None \<Rightarrow> None
      | Some f \<Rightarrow>
         (case map_of (synchs rt) f of
            None \<Rightarrow> None
          | Some s \<Rightarrow>
             (case acquire s wakes of
                None \<Rightarrow> None
              | Some r \<Rightarrow>
                  Some (Runtime ((f, snd r) # synchs rt) (funcArgs rt) (futureSyncs rt)
                          (threadPool rt) (next_addr rt)))))"

definition ares_task_release_future :: "addr \<Rightarrow> Runtime \<Rightarrow> Runtime option" where
  "ares_task_release_future argsPtr rt =
     (case map_of (futureSyncs rt) argsPtr of
        None \<Rightarrow> None
      | Some f \<Rightarrow>
         (case map_of (synchs rt) f of
            None \<Rightarrow> None
          | Some s \<Rightarrow>
              Some (Runtime ((f, release s) # synchs rt) (funcArgs rt) (futureSyncs rt)
                      (threadPool rt) (next_addr rt))))"

section \<open>The SSA module and the instruction builder\<close>

text \<open>
  The lowering passes of hlir/src/HLIR.cpp edit an LLVM module in place through LLVM's
  \<^verbatim>\<open>IRBuilder\<close>. The model keeps what the passes read and write: functions made of
  basic blocks made of instructions, each instruction with an identity (its address in
  LLVM, a number here), an opcode, its operands and its type. A struct of the source
  is a datatype with one constructor and named selectors.

  The passes \<^verbatim>\<open>lowerParallelFor_\<close>, \<^verbatim>\<open>lowerParallelReduce_\<close> and \<^verbatim>\<open>lowerTask_\<close> are
  \<open>lowerParallelFor\<close>, \<open>lowerParallelReduce\<close> and \<open>lowerTask\<close> below.

  A call has its callee as first operand, followed by the arguments. Branch targets are
  block identities inside the opcode. \<open>NoOp\<close> is the placeholder instruction that
  \<^verbatim>\<open>createNoOp\<close> makes; \<open>Other\<close> is any instruction of user code that the passes do
  not look into.
\<close>

type_synonym ident = nat

datatype ty = VoidTy | I1Ty | I32Ty | I64Ty | VoidPtrTy | PointerTy ty | StructTy "ty list"
  | OtherTy string

datatype val = Inst ident | Argument string nat | ConstantInt ty int | FunctionV string

datatype opcode =
    Alloca ty | Load | Store | StructGEP nat | BitCast | Call
  | Sub | Add | ICmpULT | Br ident | CondBr ident ident | Ret | NoOp | Other string

datatype Instruction = Instruction (iid: ident) (iop: opcode) (operands: "val list") (ity: ty)

datatype BasicBlock = BasicBlock (bid: ident) (label: string) (insts: "Instruction list")

datatype Function = Function (fname: string) (returnType: ty) (paramTypes: "ty list")
  (blocks: "BasicBlock list")

text \<open>
  The state every pass threads through: the functions of the module, the next unused
  identity, and the insertion point of the \<^verbatim>\<open>IRBuilder\<close>, which is either the end of a
  block (\<^verbatim>\<open>SetInsertPoint(BasicBlock*)\<close>) or the place just before an instruction
  (\<^verbatim>\<open>SetInsertPoint(Instruction*)\<close>).
\<close>

datatype insert_point = AtEnd ident | Before ident

datatype builder = Builder (funcs: "Function list") (fresh: ident) (ip: insert_point)

definition empty_builder :: builder where
  "empty_builder = Builder [] 0 (AtEnd 0)"

definition all_insts :: "Function \<Rightarrow> Instruction list" where
  "all_insts f = concat (map insts (blocks f))"

definition module_insts :: "Function list \<Rightarrow> Instruction list" where
  "module_insts fs = concat (map all_insts fs)"

definition function_blocks :: "Function list \<Rightarrow> string \<Rightarrow> BasicBlock list" where
  "function_blocks fs f = (case find (\<lambda>g. fname g = f) fs of None \<Rightarrow> [] | Some g \<Rightarrow> blocks g)"

definition find_inst :: "Function list \<Rightarrow> ident \<Rightarrow> Instruction option" where
  "find_inst fs i = find (\<lambda>x. iid x = i) (module_insts fs)"

text \<open>\<^verbatim>\<open>i->getParent()\<close> and \<^verbatim>\<open>i->getParent()->getParent()\<close>.\<close>

definition inst_block :: "Function list \<Rightarrow> ident \<Rightarrow> ident option" where
  "inst_block fs i =
     map_option bid (find (\<lambda>bb. i \<in> set (map iid (insts bb))) (concat (map blocks fs)))"

definition inst_function :: "Function list \<Rightarrow> ident \<Rightarrow> string option" where
  "inst_function fs i = map_option fname (find (\<lambda>f. i \<in> set (map iid (all_insts f))) fs)"

fun getType :: "Function list \<Rightarrow> val \<Rightarrow> ty" where
  "getType fs (Inst i) = (case find_inst fs i of Some x \<Rightarrow> ity x | None \<Rightarrow> VoidTy)"
| "getType fs (Argument f k) =
     (case find (\<lambda>g. fname g = f) fs of
        Some g \<Rightarrow> (if k < length (paramTypes g) then paramTypes g ! k else VoidTy)
      | None \<Rightarrow> VoidTy)"
| "getType fs (ConstantInt t k) = t"
| "getType fs (FunctionV f) = VoidPtrTy"

fun insert_before :: "ident \<Rightarrow> Instruction \<Rightarrow> Instruction list \<Rightarrow> Instruction list" where
  "insert_before i new [] = []"
| "insert_before i new (x # xs) =
     (if iid x = i then new # x # xs else x # insert_before i new xs)"

definition map_blocks :: "(BasicBlock \<Rightarrow> BasicBlock) \<Rightarrow> Function list \<Rightarrow> Function list" where
  "map_blocks g fs =
     map (\<lambda>f. Function (fname f) (returnType f) (paramTypes f) (map g (blocks f))) fs"

definition map_insts :: "(Instruction list \<Rightarrow> Instruction list) \<Rightarrow> Function list \<Rightarrow> Function list" where
  "map_insts g fs = map_blocks (\<lambda>bb. BasicBlock (bid bb) (label bb) (g (insts bb))) fs"

fun insert_at :: "insert_point \<Rightarrow> Instruction \<Rightarrow> Function list \<Rightarrow> Function list" where
  "insert_at (AtEnd b) new fs =
     map_blocks (\<lambda>bb. if bid bb = b then BasicBlock (bid bb) (label bb) (insts bb @ [new])
                       else bb) fs"
| "insert_at (Before i) new fs = map_insts (insert_before i new) fs"

definition SetInsertPoint :: "insert_point \<Rightarrow> builder \<Rightarrow> builder" where
  "SetInsertPoint p b = Builder (funcs b) (fresh b) p"

text \<open>
  \<open>Create\<close> stands for the \<^verbatim>\<open>IRBuilder::Create...\<close> calls: a new instruction at the
  insertion point, returned as a value. \<^verbatim>\<open>IRBuilder\<close> may fold a cast of a constant or a
  cast to the same type into its operand instead of emitting an instruction; the model
  always emits the instruction, which computes the same value.
\<close>

definition Create :: "opcode \<Rightarrow> val list \<Rightarrow> ty \<Rightarrow> builder \<Rightarrow> val \<times> builder" where
  "Create oc ops t b =
     (Inst (fresh b),
      Builder (insert_at (ip b) (Instruction (fresh b) oc ops t) (funcs b)) (Suc (fresh b)) (ip b))"

fun the_inst :: "val \<Rightarrow> ident" where
  "the_inst (Inst i) = i"
| "the_inst v = 0"

text \<open>\<^verbatim>\<open>Function::Create(type, linkage, name, module)\<close> and
  \<^verbatim>\<open>BasicBlock::Create(context, name, function)\<close>: both append.\<close>

definition Function_Create :: "string \<Rightarrow> ty \<Rightarrow> ty list \<Rightarrow> builder \<Rightarrow> string \<times> builder" where
  "Function_Create name rt pts b =
     (name, Builder (funcs b @ [Function name rt pts []]) (fresh b) (ip b))"

definition BasicBlock_Create :: "string \<Rightarrow> string \<Rightarrow> builder \<Rightarrow> ident \<times> builder" where
  "BasicBlock_Create lbl fn b =
     (fresh b,
      Builder (map (\<lambda>f. if fname f = fn
                 then Function (fname f) (returnType f) (paramTypes f)
                        (blocks f @ [BasicBlock (fresh b) lbl []])
                 else f) (funcs b))
        (Suc (fresh b)) (ip b))"

text \<open>\<^verbatim>\<open>Instruction::removeFromParent\<close> (and \<^verbatim>\<open>eraseFromParent\<close>, which also frees it).\<close>

definition removeFromParent :: "ident \<Rightarrow> Function list \<Rightarrow> Function list" where
  "removeFromParent i fs = map_insts (filter (\<lambda>x. iid x \<noteq> i)) fs"

definition isTerminator :: "opcode \<Rightarrow> bool" where
  "isTerminator oc = (case oc of Br t \<Rightarrow> True | CondBr t e \<Rightarrow> True | Ret \<Rightarrow> True | _ \<Rightarrow> False)"

definition getTerminator :: "Function list \<Rightarrow> ident \<Rightarrow> ident option" where
  "getTerminator fs blk =
     (case find (\<lambda>bb. bid bb = blk) (concat (map blocks fs)) of
        None \<Rightarrow> None
      | Some bb \<Rightarrow>
          (if insts bb \<noteq> [] \<and> isTerminator (iop (last (insts bb)))
           then Some (iid (last (insts bb))) else None))"

text \<open>
  \<^verbatim>\<open>BasicBlock::splitBasicBlock(I, name)\<close>: the instructions from \<^verbatim>\<open>I\<close> on move to a new
  block placed right after the old one, and the old block gets a branch to the new one.
\<close>

fun split_blocks ::
  "ident \<Rightarrow> ident \<Rightarrow> ident \<Rightarrow> ident \<Rightarrow> string \<Rightarrow> BasicBlock list \<Rightarrow> BasicBlock list" where
  "split_blocks blk i new br lbl [] = []"
| "split_blocks blk i new br lbl (bb # bbs) =
     (if bid bb = blk
      then BasicBlock (bid bb) (label bb)
             (takeWhile (\<lambda>x. iid x \<noteq> i) (insts bb) @ [Instruction br (Br new) [] VoidTy])
           # BasicBlock new lbl (dropWhile (\<lambda>x. iid x \<noteq> i) (insts bb)) # bbs
      else bb # split_blocks blk i new br lbl bbs)"

definition splitBasicBlock :: "ident \<Rightarrow> ident \<Rightarrow> string \<Rightarrow> builder \<Rightarrow> ident \<times> builder" where
  "splitBasicBlock blk i lbl b =
     (fresh b,
      Builder (map (\<lambda>f. Function (fname f) (returnType f) (paramTypes f)
                          (split_blocks blk i (fresh b) (Suc (fresh b)) lbl (blocks f))) (funcs b))
        (Suc (Suc (fresh b))) (ip b))"

text \<open>\<^verbatim>\<open>User::replaceUsesOfWith\<close> on one instruction, and \<^verbatim>\<open>Value::replaceAllUsesWith\<close>.\<close>

definition replaceUsesOfWith :: "val \<Rightarrow> val \<Rightarrow> Instruction \<Rightarrow> Instruction" where
  "replaceUsesOfWith from to x =
     Instruction (iid x) (iop x) (map (\<lambda>v. if v = from then to else v) (operands x)) (ity x)"

definition replaceAllUsesWith :: "val \<Rightarrow> val \<Rightarrow> Function list \<Rightarrow> Function list" where
  "replaceAllUsesWith from to fs = map_insts (map (replaceUsesOfWith from to)) fs"

section \<open>The HLIR constructs and their lowering (hlir/src/HLIR.cpp)\<close>

subsection \<open>findExternalValues\<close>

text \<open>
  \<^verbatim>\<open>findExternalValues(f, v)\<close> walks the blocks of \<^verbatim>\<open>f\<close>, their instructions and their
  operands in order, and does \<^verbatim>\<open>v.push_back(ij)\<close> for every operand that is an instruction
  (\<^verbatim>\<open>dyn_cast<Instruction>\<close>) whose function is not \<^verbatim>\<open>f\<close>. Nothing is compared with what
  \<^verbatim>\<open>v\<close> already holds.
\<close>

fun operand_insts :: "val list \<Rightarrow> ident list" where
  "operand_insts [] = []"
| "operand_insts (Inst j # vs) = j # operand_insts vs"
| "operand_insts (v # vs) = operand_insts vs"

definition findExternalValues :: "Function list \<Rightarrow> string \<Rightarrow> ident list" where
  "findExternalValues fs f =
     concat (map (\<lambda>bi.
       concat (map (\<lambda>ii.
         filter (\<lambda>ij. inst_function fs ij \<noteq> Some f) (operand_insts (operands ii)))
         (insts bi)))
       (function_blocks fs f))"

text \<open>The field types of \<^verbatim>\<open>struct.func_args\<close> in \<^verbatim>\<open>lowerParallelFor_\<close>:
  \<^verbatim>\<open>for(Instruction* vi : v) fields.push_back(vi->getType());\<close>\<close>

definition capturedFields :: "Function list \<Rightarrow> ident list \<Rightarrow> ty list" where
  "capturedFields fs v = map (\<lambda>vi. getType fs (Inst vi)) v"

text \<open>
  For the statement about \<open>findExternalValues\<close>: how often a value occurs as an operand in
  the function \<open>f\<close>.
\<close>

definition operand_occurrences :: "Function list \<Rightarrow> string \<Rightarrow> ident \<Rightarrow> nat" where
  "operand_occurrences fs f j =
     sum_list (map (\<lambda>ii. count_list (operands ii) (Inst j))
                 (concat (map insts (function_blocks fs f))))"

subsection \<open>The parallel-for construct\<close>

text \<open>
  The construct is a string-keyed attribute bag in the source; its attributes are the
  selectors here. The constructor sets \<^verbatim>\<open>"index"\<close>, \<^verbatim>\<open>"insertion"\<close>, \<^verbatim>\<open>"args"\<close>,
  \<^verbatim>\<open>"argsInsertion"\<close> and \<^verbatim>\<open>"body"\<close>; the front end adds \<^verbatim>\<open>"marker"\<close> and the range later,
  and \<^verbatim>\<open>lowerParallelFor_\<close> reads them.
\<close>

datatype HLIRParallelFor = HLIRParallelFor
  (body: string) (index: val) (insertion: ident) (args: val) (argsInsertion: ident)
  (marker: "ident option") (range_of: "(int \<times> int) option")

definition func_args :: ty where
  "func_args = StructTy [VoidPtrTy, I32Ty, VoidPtrTy]"

text \<open>
  Modelled from the spec: \<^verbatim>\<open>HLIRModule::createNoOp\<close> (hlir/HLIR.h is not among the
  sources). The spec calls its result a named insertion point inside the body, and
  \<^verbatim>\<open>lowerParallelFor_\<close> sets the builder before it: an instruction without effect, made
  at the insertion point of the module's builder.
\<close>

definition createNoOp :: "builder \<Rightarrow> val \<times> builder" where
  "createNoOp b = Create NoOp [] VoidTy b"

text \<open>
  \<^verbatim>\<open>HLIRParallelFor::HLIRParallelFor(HLIRModule* module)\<close>, statement by statement. The last
  instruction is made by \<^verbatim>\<open>ReturnInst::Create(c, entry)\<close>, which appends to \<^verbatim>\<open>entry\<close>, and
  it is this return instruction that is stored as \<^verbatim>\<open>"insertion"\<close>.
\<close>

definition HLIRParallelFor_new :: "builder \<Rightarrow> HLIRParallelFor \<times> builder" where
  "HLIRParallelFor_new b0 =
    (let p = Function_Create ''hlir.parallel_for.body'' VoidTy [VoidPtrTy] b0;
         func = fst p; b = snd p;
         argsVoidPtr = Argument func 0;
         p = BasicBlock_Create ''entry'' func b; entry = fst p; b = snd p;
         b = SetInsertPoint (AtEnd entry) b;
         argsType = func_args;
         p = Create BitCast [argsVoidPtr] (PointerTy argsType) b; argsPtr = fst p; b = snd p;
         p = Create (StructGEP 0) [argsPtr] (PointerTy VoidPtrTy) b; synchPtr = fst p; b = snd p;
         p = Create Load [synchPtr] VoidPtrTy b; synchPtr = fst p; b = snd p;
         p = Create (StructGEP 1) [argsPtr] (PointerTy I32Ty) b; indexPtr = fst p; b = snd p;
         p = Create (StructGEP 2) [argsPtr] (PointerTy VoidPtrTy) b; funcArgsPtr = fst p; b = snd p;
         p = Create Load [funcArgsPtr] VoidPtrTy b; funcArgsPtr = fst p; b = snd p;
         p = createNoOp b; placeholder = fst p; b = snd p;
         p = Create BitCast [synchPtr] VoidPtrTy b; synchVoidPtr = fst p; b = snd p;
         b = snd (Create Call [FunctionV ''__ares_finish_func'', argsVoidPtr] VoidTy b);
         p = Create Ret [] VoidTy (SetInsertPoint (AtEnd entry) b); ret = fst p; b = snd p
     in (HLIRParallelFor func indexPtr (the_inst ret) funcArgsPtr (the_inst placeholder)
           None None, b))"

text \<open>
  Modelled from the spec: the front end that writes the body (it is not among the
  sources). The spec: the constructor "reserves an insertion point for the user's body IR
  (the emitter writes here)". Writing at an instruction is \<^verbatim>\<open>SetInsertPoint(Instruction*)\<close>,
  as the passes themselves do at \<^verbatim>\<open>"argsInsertion"\<close> and \<^verbatim>\<open>"marker"\<close>: the new instructions
  go before it, in the order in which they are made.
\<close>

fun emit :: "(opcode \<times> val list \<times> ty) list \<Rightarrow> builder \<Rightarrow> builder" where
  "emit [] b = b"
| "emit (u # us) b = emit us (snd (Create (fst u) (fst (snd u)) (snd (snd u)) b))"

definition emit_body :: "HLIRParallelFor \<Rightarrow> (opcode \<times> val list \<times> ty) list \<Rightarrow> builder \<Rightarrow> builder" where
  "emit_body pf us b = emit us (SetInsertPoint (Before (insertion pf)) b)"

text \<open>
  \<^verbatim>\<open>lowerParallelFor_\<close>, first loop (lines 186-200): for each entry \<^verbatim>\<open>vi\<close> of \<^verbatim>\<open>v\<close> a GEP
  and a load \<^verbatim>\<open>ri\<close> in the body, and then the walk
  \<^verbatim>\<open>for(Use& u : vi->uses())\<close> that calls \<^verbatim>\<open>user->replaceUsesOfWith(vi, ri)\<close> on the
  users inside the body.

  The walk runs over the use list of \<^verbatim>\<open>vi\<close> while the loop body edits it. The use
  lists at the start of the pass are an input, as for the tasks below: \<open>uses v\<close> lists
  the users of \<open>v\<close>, one entry per use, in use-list order. A use that an earlier entry
  of \<^verbatim>\<open>v\<close> has redirected is no longer in the list (\<open>liveUses\<close>); the new GEP and load
  do not use \<^verbatim>\<open>vi\<close>. A user outside the body is skipped and the walk goes on. At the
  first user inside the body, \<^verbatim>\<open>replaceUsesOfWith\<close> moves every use of \<^verbatim>\<open>vi\<close> in that
  user to the head of the use list of \<^verbatim>\<open>ri\<close>, the use \<^verbatim>\<open>u\<close> among them, so that the
  iterator's step \<^verbatim>\<open>u->getNext()\<close> continues in the list of \<^verbatim>\<open>ri\<close>: it visits at most
  the other uses of the same user, which has no operand \<^verbatim>\<open>vi\<close> left, and ends. One
  entry of \<^verbatim>\<open>v\<close> therefore redirects one user.
\<close>

definition liveUses :: "Function list \<Rightarrow> (val \<Rightarrow> ident list) \<Rightarrow> val \<Rightarrow> ident list" where
  "liveUses fs uses vi =
     filter (\<lambda>u. case find_inst fs u of None \<Rightarrow> False | Some x \<Rightarrow> vi \<in> set (operands x))
       (uses vi)"

fun walkUses :: "string \<Rightarrow> val \<Rightarrow> val \<Rightarrow> ident list \<Rightarrow> Function list \<Rightarrow> Function list" where
  "walkUses bodyf vi ri [] fs = fs"
| "walkUses bodyf vi ri (u # us) fs =
     (if inst_function fs u = Some bodyf
      then map_insts (map (\<lambda>x. if iid x = u then replaceUsesOfWith vi ri x else x)) fs
      else walkUses bodyf vi ri us fs)"

fun unpackArgs ::
  "(val \<Rightarrow> ident list) \<Rightarrow> string \<Rightarrow> val \<Rightarrow> nat \<Rightarrow> ident list \<Rightarrow> builder \<Rightarrow> builder" where
  "unpackArgs uses bodyf argsStructPtr i [] b = b"
| "unpackArgs uses bodyf argsStructPtr i (vi # v) b =
     unpackArgs uses bodyf argsStructPtr (Suc i) v
       (let t = getType (funcs b) (Inst vi);
            p = Create (StructGEP i) [argsStructPtr] (PointerTy t) b; gi = fst p; b = snd p;
            p = Create Load [gi] t b; ri = fst p; b = snd p
        in Builder (walkUses bodyf (Inst vi) ri (liveUses (funcs b) uses (Inst vi)) (funcs b))
             (fresh b) (ip b))"

text \<open>Second loop (lines 206-210): store each captured value into its field.\<close>

fun storeArgs :: "val \<Rightarrow> nat \<Rightarrow> val list \<Rightarrow> builder \<Rightarrow> builder" where
  "storeArgs argsPtr i [] b = b"
| "storeArgs argsPtr i (vi # v) b =
     storeArgs argsPtr (Suc i) v
       (let p = Create (StructGEP i) [argsPtr] (PointerTy (getType (funcs b) vi)) b;
            pi = fst p; b = snd p
        in snd (Create Store [vi, pi] VoidTy b))"

text \<open>Modelled from the spec: \<^verbatim>\<open>toInt32\<close> (hlir/HLIR.h): the i32 constant of a range bound.\<close>

definition toInt32 :: "int \<Rightarrow> val" where
  "toInt32 k = ConstantInt I32Ty k"

text \<open>
  \<^verbatim>\<open>HLIRModule::lowerParallelFor_\<close>. A construct without marker or range, or a marker that
  is in no block, fails an assertion in the source: \<open>None\<close>. The queue loop is emitted as
  one block that calls \<^verbatim>\<open>__ares_queue_func\<close> first and tests \<^verbatim>\<open>nextIndex < end\<close> (unsigned)
  afterwards; no test is emitted before the branch into the loop.
\<close>

definition lowerParallelFor ::
  "HLIRParallelFor \<Rightarrow> (val \<Rightarrow> ident list) \<Rightarrow> builder \<Rightarrow> builder option" where
  "lowerParallelFor pf uses b0 =
    (case marker pf of None \<Rightarrow> None | Some mk \<Rightarrow>
     case range_of pf of None \<Rightarrow> None | Some r \<Rightarrow>
     case inst_block (funcs b0) mk of None \<Rightarrow> None | Some block \<Rightarrow>
     case inst_function (funcs b0) mk of None \<Rightarrow> None | Some func \<Rightarrow>
     Some
      (let one = ConstantInt I32Ty 1;
           v = findExternalValues (funcs b0) (body pf);
           fields = capturedFields (funcs b0) v;
           argsType = StructTy fields;
           b = SetInsertPoint (Before (argsInsertion pf)) b0;
           p = Create BitCast [args pf] (PointerTy argsType) b; argsStructPtr = fst p; b = snd p;
           b = unpackArgs uses (body pf) argsStructPtr 0 v b;
           b = SetInsertPoint (Before mk) b;
           p = Create (Alloca argsType) [] (PointerTy argsType) b; argsPtr = fst p; b = snd p;
           b = storeArgs argsPtr 0 (map Inst v) b;
           start = toInt32 (fst r);
           end = toInt32 (snd r);
           p = Create Sub [end, start] I32Ty b; n = fst p; b = snd p;
           p = Create Call [FunctionV ''__ares_create_synch'', n] VoidPtrTy b;
           synchPtr = fst p; b = snd p;
           p = Create (Alloca I32Ty) [] (PointerTy I32Ty) b; indexPtr = fst p; b = snd p;
           b = snd (Create Store [start, indexPtr] VoidTy b);
           p = BasicBlock_Create ''pfor.queue.loop'' func b; loopBlock = fst p; b = snd p;
           b = snd (Create (Br loopBlock) [] VoidTy b);
           b = SetInsertPoint (AtEnd loopBlock) b;
           bodyFunc = FunctionV (body pf);
           p = Create Load [indexPtr] I32Ty b; idx = fst p; b = snd p;
           p = Create BitCast [argsPtr] VoidPtrTy b; argsVoidPtr = fst p; b = snd p;
           p = Create BitCast [bodyFunc] VoidPtrTy b; bodyVoidPtr = fst p; b = snd p;
           b = snd (Create Call [FunctionV ''__ares_queue_func'',
                                 synchPtr, argsVoidPtr, bodyVoidPtr, idx, one] VoidTy b);
           p = Create Add [idx, one] I32Ty b; nextIndex = fst p; b = snd p;
           b = snd (Create Store [nextIndex, indexPtr] VoidTy b);
           p = Create ICmpULT [nextIndex, end] I1Ty b; cond = fst p; b = snd p;
           p = BasicBlock_Create ''pfor.queue.exit'' func b; exitBlock = fst p; b = snd p;
           b = snd (Create (CondBr loopBlock exitBlock) [cond] VoidTy b);
           p = splitBasicBlock block mk ''pfor.merge'' b; blockAfter = fst p; b = snd p;
           b = (case getTerminator (funcs b) block of
                  None \<Rightarrow> b
                | Some t \<Rightarrow> Builder (removeFromParent t (funcs b)) (fresh b) (ip b));
           b = Builder (removeFromParent mk (funcs b)) (fresh b) (ip b);
           b = SetInsertPoint (AtEnd exitBlock) b;
           b = snd (Create Call [FunctionV ''__ares_await_synch'', synchPtr] VoidTy b)
       in snd (Create (Br blockAfter) [] VoidTy b)))"

subsection \<open>The parallel-reduce construct\<close>

datatype HLIRParallelReduce = HLIRParallelReduce
  (reduce_body: string) (reduce_entry: ident) (reduce_index: val) (reduce_insertion: ident)
  (reduce_args: val) (reduce_argsInsertion: ident) (reduceVar: val) (reduceType: ty)
  (reduce_marker: "ident option")

text \<open>\<^verbatim>\<open>HLIRParallelReduce::HLIRParallelReduce(HLIRModule*, const HLIRType& reduceType)\<close>.\<close>

definition HLIRParallelReduce_new :: "ty \<Rightarrow> builder \<Rightarrow> HLIRParallelReduce \<times> builder" where
  "HLIRParallelReduce_new rty b0 =
    (let p = Function_Create ''hlir.parallel_reduce.body'' rty [VoidPtrTy] b0;
         func = fst p; b = snd p;
         argsVoidPtr = Argument func 0;
         p = BasicBlock_Create ''entry'' func b; entry = fst p; b = snd p;
         b = SetInsertPoint (AtEnd entry) b;
         p = Create (Alloca rty) [] (PointerTy rty) b; rv = fst p; b = snd p;
         argsType = func_args;
         p = Create BitCast [argsVoidPtr] (PointerTy argsType) b; argsPtr = fst p; b = snd p;
         p = Create (StructGEP 0) [argsPtr] (PointerTy VoidPtrTy) b; synchPtr = fst p; b = snd p;
         p = Create Load [synchPtr] VoidPtrTy b; synchPtr = fst p; b = snd p;
         p = Create (StructGEP 1) [argsPtr] (PointerTy I32Ty) b; indexPtr = fst p; b = snd p;
         p = Create (StructGEP 2) [argsPtr] (PointerTy VoidPtrTy) b; funcArgsPtr = fst p; b = snd p;
         p = Create Load [funcArgsPtr] VoidPtrTy b; funcArgsPtr = fst p; b = snd p;
         p = createNoOp b; placeholder = fst p; b = snd p;
         p = Create BitCast [synchPtr] VoidPtrTy b; synchVoidPtr = fst p; b = snd p;
         b = snd (Create Call [FunctionV ''__ares_finish_func'', argsVoidPtr] VoidTy b);
         p = Create Load [rv] rty b; retVal = fst p; b = snd p;
         b = snd (Create Ret [retVal] VoidTy (SetInsertPoint (AtEnd entry) b))
     in (HLIRParallelReduce func (the_inst rv) indexPtr (the_inst retVal) funcArgsPtr
           (the_inst placeholder) rv rty None, b))"

text \<open>
  \<^verbatim>\<open>HLIRModule::lowerParallelReduce_\<close>: \<^verbatim>\<open>marker->removeFromParent()\<close> and nothing else. A
  construct without marker fails the assertion inside \<^verbatim>\<open>get\<close>: \<open>None\<close>.
\<close>

definition lowerParallelReduce :: "HLIRParallelReduce \<Rightarrow> builder \<Rightarrow> builder option" where
  "lowerParallelReduce r b =
     (case reduce_marker r of
        None \<Rightarrow> None
      | Some mk \<Rightarrow> Some (Builder (removeFromParent mk (funcs b)) (fresh b) (ip b)))"

subsection \<open>Tasks\<close>

datatype HLIRTask = HLIRTask (taskFunction: string) (wrapperFunction: string)

fun storeTaskArgs :: "val \<Rightarrow> nat \<Rightarrow> val list \<Rightarrow> builder \<Rightarrow> builder" where
  "storeTaskArgs argsPtr idx [] b = b"
| "storeTaskArgs argsPtr idx (arg # as) b =
     storeTaskArgs argsPtr (Suc idx) as
       (let p = Create (StructGEP idx) [argsPtr] (PointerTy (getType (funcs b) arg)) b;
            argPtr = fst p; b = snd p
        in snd (Create Store [arg, argPtr] VoidTy b))"

text \<open>
  The body of the loop of \<^verbatim>\<open>HLIRModule::lowerTask_\<close> for one call \<^verbatim>\<open>ci\<close> of the task
  function outside the wrapper.

  LLVM keeps, with every value, the list of its uses, and \<^verbatim>\<open>ci->use_begin()\<close> walks that
  list from its head. The order of the list is LLVM's business (a new use is linked in
  at the head), not the order of the instructions in the block, so it is an input of the
  model: \<open>uses v\<close> lists the users of \<open>v\<close> in use-list order. Every user of an instruction
  is an instruction, so the inner loop stops at the head of the list. The size of the
  argument block comes from LLVM's \<^verbatim>\<open>DataLayout\<close>, another input.
\<close>

definition lowerTaskCall ::
  "HLIRTask \<Rightarrow> (ty \<Rightarrow> int) \<Rightarrow> (val \<Rightarrow> ident list) \<Rightarrow> Instruction \<Rightarrow> builder \<Rightarrow> builder" where
  "lowerTaskCall task getTypeAllocSize uses ci b0 =
    (let func = find (\<lambda>g. fname g = taskFunction task) (funcs b0);
         b = SetInsertPoint (Before (iid ci)) b0;
         fields = [VoidPtrTy, I32Ty, case func of None \<Rightarrow> VoidTy | Some g \<Rightarrow> returnType g]
                  @ (case func of None \<Rightarrow> [] | Some g \<Rightarrow> paramTypes g);
         argsType = StructTy fields;
         size = getTypeAllocSize argsType;
         p = Create Call [FunctionV ''__ares_alloc'', ConstantInt I64Ty size] VoidPtrTy b;
         argsVoidPtr = fst p; b = snd p;
         p = Create BitCast [argsVoidPtr] (PointerTy argsType) b; argsPtr = fst p; b = snd p;
         p = Create (StructGEP 1) [argsPtr] (PointerTy I32Ty) b; depth = fst p; b = snd p;
         p = Create Load [depth] I32Ty b; depth = fst p; b = snd p;
         b = storeTaskArgs argsPtr 3 (tl (operands ci)) b;
         p = Create BitCast [FunctionV (wrapperFunction task)] VoidPtrTy b;
         funcVoidPtr = fst p; b = snd p;
         b = snd (Create Call [FunctionV ''__ares_task_queue'', funcVoidPtr, argsVoidPtr] VoidTy b);
         b = (if uses (Inst (iid ci)) = [] then b
              else
               (let i = hd (uses (Inst (iid ci)));
                    b = SetInsertPoint (Before i) b;
                    b = snd (Create Call [FunctionV ''__ares_task_await_future'', argsVoidPtr]
                               VoidTy b);
                    p = Create (StructGEP 2) [argsPtr] (PointerTy (ity ci)) b;
                    retPtr = fst p; b = snd p;
                    p = Create Load [retPtr] (ity ci) b; retVal = fst p; b = snd p
                in Builder (replaceAllUsesWith (Inst (iid ci)) retVal (funcs b)) (fresh b) (ip b)))
     in Builder (removeFromParent (iid ci) (funcs b)) (fresh b) (ip b))"

text \<open>
  The loop itself: over the users of the task function, in use-list order; a user that
  is a call outside the wrapper is lowered.
\<close>

fun lowerTaskUses ::
  "HLIRTask \<Rightarrow> (ty \<Rightarrow> int) \<Rightarrow> (val \<Rightarrow> ident list) \<Rightarrow> ident list \<Rightarrow> builder \<Rightarrow> builder" where
  "lowerTaskUses task sz uses [] b = b"
| "lowerTaskUses task sz uses (u # us) b =
     lowerTaskUses task sz uses us
       (case find_inst (funcs b) u of
          None \<Rightarrow> b
        | Some ci \<Rightarrow>
            (if iop ci = Call \<and> inst_function (funcs b) u \<noteq> Some (wrapperFunction task)
             then lowerTaskCall task sz uses ci b else b))"

definition lowerTask ::
  "HLIRTask \<Rightarrow> (ty \<Rightarrow> int) \<Rightarrow> (val \<Rightarrow> ident list) \<Rightarrow> builder \<Rightarrow> builder" where
  "lowerTask task sz uses b = lowerTaskUses task sz uses (uses (FunctionV (taskFunction task))) b"

section \<open>Running lowered code\<close>

text \<open>
  A small interpreter for the instructions the passes emit, to see what a lowered caller
  does. A value is a 32-bit integer, an address or a function. Every call is a call into
  the runtime: it is recorded in \<open>calls\<close> with its argument values and answers with a
  fresh opaque handle. Memory is allocated by \<open>Alloca\<close>, one cell per struct field.
  Anything else (user code, an operand without value, running out of fuel) is \<open>None\<close>.
\<close>

datatype rval = RInt "32 word" | RPtr nat | RFun string

datatype machine = Machine (env: "(ident \<times> rval) list") (mem: "(nat \<times> rval) list") (brk: nat)
  (calls: "(string \<times> rval list) list")

fun eval :: "machine \<Rightarrow> val \<Rightarrow> rval option" where
  "eval m (Inst i) = map_of (env m) i"
| "eval m (ConstantInt t k) = Some (RInt (word_of_int k))"
| "eval m (FunctionV f) = Some (RFun f)"
| "eval m (Argument f k) = None"

datatype control = Next | Jump ident | Return

definition set_reg :: "ident \<Rightarrow> rval \<Rightarrow> machine \<Rightarrow> machine" where
  "set_reg i v m = Machine ((i, v) # env m) (mem m) (brk m) (calls m)"

definition cells :: "ty \<Rightarrow> nat" where
  "cells t = (case t of StructTy ts \<Rightarrow> max 1 (length ts) | _ \<Rightarrow> 1)"

fun those_vals :: "rval option list \<Rightarrow> rval list option" where
  "those_vals [] = Some []"
| "those_vals (None # xs) = None"
| "those_vals (Some v # xs) = (case those_vals xs of None \<Rightarrow> None | Some vs \<Rightarrow> Some (v # vs))"

definition exec_opcode ::
  "opcode \<Rightarrow> ident \<Rightarrow> rval list \<Rightarrow> machine \<Rightarrow> (control \<times> machine) option" where
  "exec_opcode oc i vs m =
    (case oc of
       Alloca t \<Rightarrow>
         Some (Next, Machine ((i, RPtr (brk m)) # env m) (mem m) (brk m + cells t) (calls m))
     | Load \<Rightarrow>
         (case vs of
            [RPtr a] \<Rightarrow>
              (case map_of (mem m) a of None \<Rightarrow> None | Some v \<Rightarrow> Some (Next, set_reg i v m))
          | _ \<Rightarrow> None)
     | Store \<Rightarrow>
         (case vs of
            [v, RPtr a] \<Rightarrow> Some (Next, Machine (env m) ((a, v) # mem m) (brk m) (calls m))
          | _ \<Rightarrow> None)
     | StructGEP k \<Rightarrow>
         (case vs of [RPtr a] \<Rightarrow> Some (Next, set_reg i (RPtr (a + k)) m) | _ \<Rightarrow> None)
     | BitCast \<Rightarrow> (case vs of [v] \<Rightarrow> Some (Next, set_reg i v m) | _ \<Rightarrow> None)
     | Call \<Rightarrow>
         (case vs of
            RFun f # as \<Rightarrow>
              Some (Next, Machine ((i, RPtr (brk m)) # env m) (mem m) (Suc (brk m))
                            (calls m @ [(f, as)]))
          | _ \<Rightarrow> None)
     | Sub \<Rightarrow>
         (case vs of [RInt x, RInt y] \<Rightarrow> Some (Next, set_reg i (RInt (x - y)) m) | _ \<Rightarrow> None)
     | Add \<Rightarrow>
         (case vs of [RInt x, RInt y] \<Rightarrow> Some (Next, set_reg i (RInt (x + y)) m) | _ \<Rightarrow> None)
     | ICmpULT \<Rightarrow>
         (case vs of
            [RInt x, RInt y] \<Rightarrow> Some (Next, set_reg i (RInt (if x < y then 1 else 0)) m)
          | _ \<Rightarrow> None)
     | Br t \<Rightarrow> Some (Jump t, m)
     | CondBr t e \<Rightarrow>
         (case vs of [RInt c] \<Rightarrow> Some (Jump (if c \<noteq> 0 then t else e), m) | _ \<Rightarrow> None)
     | Ret \<Rightarrow> Some (Return, m)
     | NoOp \<Rightarrow> Some (Next, m)
     | Other s \<Rightarrow> None)"

definition exec_inst :: "Instruction \<Rightarrow> machine \<Rightarrow> (control \<times> machine) option" where
  "exec_inst x m =
     (case those_vals (map (eval m) (operands x)) of
        None \<Rightarrow> None
      | Some vs \<Rightarrow> exec_opcode (iop x) (iid x) vs m)"

fun exec_insts :: "Instruction list \<Rightarrow> machine \<Rightarrow> (control \<times> machine) option" where
  "exec_insts [] m = None"
| "exec_insts (x # xs) m =
     (case exec_inst x m of
        None \<Rightarrow> None
      | Some r \<Rightarrow> (if fst r = Next then exec_insts xs (snd r) else Some r))"

fun exec_blocks :: "nat \<Rightarrow> BasicBlock list \<Rightarrow> ident \<Rightarrow> machine \<Rightarrow> machine option" where
  "exec_blocks 0 bbs cur m = None"
| "exec_blocks (Suc k) bbs cur m =
     (case find (\<lambda>bb. bid bb = cur) bbs of
        None \<Rightarrow> None
      | Some bb \<Rightarrow>
         (case exec_insts (insts bb) m of
            None \<Rightarrow> None
          | Some r \<Rightarrow>
             (case fst r of
                Return \<Rightarrow> Some (snd r)
              | Jump t \<Rightarrow> exec_blocks k bbs t (snd r)
              | Next \<Rightarrow> None)))"

definition run_function :: "nat \<Rightarrow> Function list \<Rightarrow> string \<Rightarrow> machine option" where
  "run_function k fs f =
     (case function_blocks fs f of
        [] \<Rightarrow> None
      | bb # bbs \<Rightarrow> exec_blocks k (bb # bbs) (bid bb) (Machine [] [] 1 []))"

subsection \<open>Example modules\<close>

text \<open>
  A caller \<^verbatim>\<open>main\<close> whose only block holds the marker of a parallel-for over
  \<open>[s, e)\<close> and a return; the body function is the one the constructor makes, with no
  user code in it.
\<close>

definition example_caller :: "int \<Rightarrow> int \<Rightarrow> HLIRParallelFor \<times> builder" where
  "example_caller s e =
    (let p = HLIRParallelFor_new empty_builder; pf = fst p; b = snd p;
         p = Function_Create ''main'' VoidTy [] b; b = snd p;
         p = BasicBlock_Create ''entry'' ''main'' b; entry = fst p; b = snd p;
         b = SetInsertPoint (AtEnd entry) b;
         p = createNoOp b; mk = fst p; b = snd p;
         b = snd (Create Ret [] VoidTy b)
     in (HLIRParallelFor (body pf) (index pf) (insertion pf) (args pf) (argsInsertion pf)
           (Some (the_inst mk)) (Some (s, e)), b))"

text \<open>
  A body function with two user instructions, the first reading the induction variable:
  what the front end produces for a loop body of two statements.
\<close>

definition example_body :: builder where
  "example_body =
     emit_body (fst (HLIRParallelFor_new empty_builder))
       [(Other ''user.first'', [index (fst (HLIRParallelFor_new empty_builder))], VoidTy),
        (Other ''user.second'', [], VoidTy)]
       (snd (HLIRParallelFor_new empty_builder))"

text \<open>
  A body function whose single user instruction adds an outer value to itself:
  \<^verbatim>\<open>%s = add %x, %x\<close> with \<^verbatim>\<open>%x\<close> defined in \<^verbatim>\<open>main\<close>.
\<close>

definition example_capture :: "Function list" where
  "example_capture =
     [Function ''main'' VoidTy []
        [BasicBlock 0 ''entry'' [Instruction 1 (Other ''x'') [] I32Ty, Instruction 2 Ret [] VoidTy]],
      Function ''hlir.parallel_for.body'' VoidTy [VoidPtrTy]
        [BasicBlock 3 ''entry''
           [Instruction 4 (Other ''add'') [Inst 1, Inst 1] I32Ty, Instruction 5 Ret [] VoidTy]]]"

text \<open>
  A parallel-for whose body holds two user instructions that read the same outer value:
  \<^verbatim>\<open>f %x\<close> and \<^verbatim>\<open>g %x, %index\<close>, with \<^verbatim>\<open>%x\<close> defined in \<^verbatim>\<open>main\<close>. The front end
  made \<^verbatim>\<open>f\<close> first, so the use list of \<^verbatim>\<open>%x\<close> has \<^verbatim>\<open>g\<close> at its head.
\<close>

definition example_captures :: "HLIRParallelFor \<times> builder" where
  "example_captures =
    (let p = Function_Create ''main'' VoidTy [] empty_builder; b = snd p;
         p = BasicBlock_Create ''entry'' ''main'' b; entry = fst p; b = snd p;
         b = SetInsertPoint (AtEnd entry) b;
         p = Create (Other ''x'') [] I32Ty b; x = fst p; b = snd p;
         p = createNoOp b; mk = fst p; b = snd p;
         b = snd (Create Ret [] VoidTy b);
         p = HLIRParallelFor_new b; pf = fst p; b = snd p;
         b = emit_body pf [(Other ''f'', [x], VoidTy), (Other ''g'', [x, index pf], VoidTy)] b
     in (HLIRParallelFor (body pf) (index pf) (insertion pf) (args pf) (argsInsertion pf)
           (Some (the_inst mk)) (Some (0, 4)), b))"

definition example_captures_uses :: "val \<Rightarrow> ident list" where
  "example_captures_uses v = (if v = Inst 1 then [16, 15] else [])"

text \<open>
  A caller that uses the result of a task call twice:
  \<^verbatim>\<open>%c = call @fib(10); %y = add %c, 1; %z = mul %c, 2; ret\<close>. The instructions were made
  in this order, so the use list of \<^verbatim>\<open>%c\<close> has \<^verbatim>\<open>%z\<close> at its head.
\<close>

definition example_task :: builder where
  "example_task =
     Builder
       [Function ''fib'' I32Ty [I32Ty] [],
        Function ''hlir.task_wrapper'' VoidTy [VoidPtrTy] [],
        Function ''main'' VoidTy []
          [BasicBlock 0 ''entry''
             [Instruction 1 Call [FunctionV ''fib'', ConstantInt I32Ty 10] I32Ty,
              Instruction 2 (Other ''add'') [Inst 1, ConstantInt I32Ty 1] I32Ty,
              Instruction 3 (Other ''mul'') [Inst 1, ConstantInt I32Ty 2] I32Ty,
              Instruction 4 Ret [] VoidTy]]]
       5 (AtEnd 0)"

definition example_task_uses :: "val \<Rightarrow> ident list" where
  "example_task_uses v =
     (if v = Inst 1 then [3, 2] else if v = FunctionV ''fib'' then [1] else [])"

text \<open>
  A caller with the marker of a parallel-reduce between two user instructions, next to
  the body function the reduce constructor makes.
\<close>

definition example_reduce :: "HLIRParallelReduce \<times> builder" where
  "example_reduce =
    (let p = HLIRParallelReduce_new I32Ty empty_builder; r = fst p; b = snd p;
         p = Function_Create ''main'' VoidTy [] b; b = snd p;
         p = BasicBlock_Create ''entry'' ''main'' b; entry = fst p; b = snd p;
         b = SetInsertPoint (AtEnd entry) b;
         b = snd (Create (Other ''before'') [] VoidTy b);
         p = createNoOp b; mk = fst p; b = snd p;
         b = snd (Create (Other ''after'') [] VoidTy b);
         b = snd (Create Ret [] VoidTy b)
     in (HLIRParallelReduce (reduce_body r) (reduce_entry r) (reduce_index r)
           (reduce_insertion r) (reduce_args r) (reduce_argsInsertion r) (reduceVar r)
           (reduceType r) (Some (the_inst mk)), b))"

section \<open>Single calls of acquire\<close>

lemma acquire_positive:
  "0 < sint (count s) \<Longrightarrow> acquire s ws = Some (True, s\<lparr>count := count s - 1\<rparr>)"
  by (cases ws) simp_all

lemma acquire_returns_true:
  "acquire s ws = Some (b, s') \<Longrightarrow> b"
  by (induction ws arbitrary: s) (auto split: if_splits)

text \<open>
  C10. The blocking overload \<^verbatim>\<open>acquire()\<close> has a single \<^verbatim>\<open>return\<close>, and it returns
  \<^verbatim>\<open>true\<close>: whenever the call returns, whatever the semaphore was and whatever happened
  during its waits, the result is success. (It does return whenever the count is positive
  on entry.)
\<close>

theorem acquire_always_true:
  "(acquire s ws = Some (b, s') \<longrightarrow> b) \<and>
   (0 < sint (count s) \<longrightarrow> acquire s ws = Some (True, s\<lparr>count := count s - 1\<rparr>))"
  using acquire_returns_true acquire_positive by blast

theorem acquire_always_true_witness:
  "acquire (CVSemaphore_1 0) [CVSemaphore_1 0, release (CVSemaphore_1 0)]
     = Some (True, \<lparr>count = 0, maxCount = 0, signals = 1\<rparr>) \<and>
   acquire (CVSemaphore_1 2) [] = Some (True, \<lparr>count = 1, maxCount = 0, signals = 0\<rparr>)"
  using acquire_always_true [of "CVSemaphore_1 0" "[CVSemaphore_1 0, release (CVSemaphore_1 0)]"
      True "\<lparr>count = 0, maxCount = 0, signals = 1\<rparr>"]
    acquire_always_true [of "CVSemaphore_1 2" "[]" True "\<lparr>count = 1, maxCount = 0, signals = 0\<rparr>"]
  by (simp add: CVSemaphore_1_def release_def)

subsection \<open>The timed overload\<close>







section \<open>Histories\<close>

lemma run_append:
  "run (xs @ ys) s = (fst (run xs s) @ fst (run ys (snd (run xs s))), snd (run ys (snd (run xs s))))"
  by (induction xs arbitrary: s) simp_all

lemma sint_succ:
  fixes c :: int32
  assumes "sint c < 2147483647"
  shows "sint (c + 1) = sint c + 1"
proof -
  have "- 2147483648 \<le> sint c" using sint_ge [of c] by simp
  with assms show ?thesis
    by (simp add: sint_word_ariths signed_take_bit_int_eq_self)
qed

lemma sint_pred:
  fixes c :: int32
  assumes "- 2147483648 < sint c"
  shows "sint (c - 1) = sint c - 1"
proof -
  have "sint c < 2147483648" using sint_lt [of c] by simp
  with assms show ?thesis
    by (simp add: sint_word_ariths signed_take_bit_int_eq_self)
qed

lemma sint_neg_of_nat:
  assumes "k < 2147483648"
  shows "sint (- (of_nat k) :: int32) = - int k"
proof -
  have "sint (of_nat k :: int32) = int k"
    using assms by (simp add: signed_of_nat signed_take_bit_int_eq_self)
  then show ?thesis
    using assms by (simp add: sint_word_ariths signed_take_bit_int_eq_self)
qed

subsection \<open>The latch\<close>

lemma sint_neg_of_nat_le:
  assumes "k \<le> 2147483648"
  shows "sint (- (of_nat k) :: int32) = - int k"
proof (cases "k < 2147483648")
  case True
  then show ?thesis by (rule sint_neg_of_nat)
next
  case False
  with assms have "k = 2147483648" by simp
  then show ?thesis by simp
qed

lemma sint_add_of_nat:
  fixes c :: int32
  shows "sint c + int r \<le> 0 \<Longrightarrow> sint (c + of_nat r) = sint c + int r"
proof (induction r)
  case 0
  then show ?case by simp
next
  case (Suc r)
  then have ih: "sint (c + of_nat r) = sint c + int r" by simp
  have eq: "c + of_nat (Suc r) = c + of_nat r + 1" by simp
  have "sint (c + of_nat (Suc r)) = sint (c + of_nat r + 1)" by (simp only: eq)
  also have "\<dots> = sint (c + of_nat r) + 1"
    using Suc.prems ih by (intro sint_succ) simp
  also have "\<dots> = sint c + int (Suc r)" using ih by simp
  finally show ?case .
qed

lemma run_nonpos:
  "0 \<le> sint (maxCount s) \<Longrightarrow> sint (count s) + int (releases xs) \<le> 0 \<Longrightarrow>
   run xs s = (map while_blocked xs,
               s\<lparr>count := count s + of_nat (releases xs), signals := signals s + releases xs\<rparr>)"
proof (induction xs arbitrary: s)
  case Nil
  then show ?case by (simp add: releases_def)
next
  case (Cons x xs)
  show ?case
  proof (cases x)
    case OpAcquire
    with Cons.prems have le: "sint (count s) \<le> 0" and r: "releases (x # xs) = releases xs"
      by (auto simp: releases_def)
    from Cons.IH [of s] Cons.prems r le OpAcquire show ?thesis by simp
  next
    case OpTryAcquire
    with Cons.prems have le: "sint (count s) \<le> 0" and r: "releases (x # xs) = releases xs"
      by (auto simp: releases_def)
    from Cons.IH [of s] Cons.prems r le OpTryAcquire show ?thesis by (simp add: tryAcquire_def)
  next
    case OpRelease
    then have r: "releases (x # xs) = Suc (releases xs)" by (simp add: releases_def)
    with Cons.prems have lt: "sint (count s) < 0" by simp
    have rel: "release s = s\<lparr>count := count s + 1, signals := Suc (signals s)\<rparr>"
      using Cons.prems(1) lt by (simp add: release_def)
    have si: "sint (count s + 1) = sint (count s) + 1" using lt by (intro sint_succ) simp
    have "run xs (release s) = (map while_blocked xs,
        (release s)\<lparr>count := count (release s) + of_nat (releases xs),
                     signals := signals (release s) + releases xs\<rparr>)"
      using Cons.prems r si by (intro Cons.IH) (simp_all add: rel)
    with OpRelease r show ?thesis by (simp add: rel add.assoc add.commute)
  qed
qed

lemma releases_append:
  "releases (xs @ ys) = releases xs + releases ys"
  by (simp add: releases_def)

lemma acquire_nonpos:
  "sint (count s) \<le> 0 \<Longrightarrow> acquire s (w # ws) = acquire w ws"
  by simp

lemma acquire_append:
  "acquire s ws = Some r \<Longrightarrow> acquire s (ws @ ws') = Some r"
proof (induction ws arbitrary: s)
  case Nil
  then show ?case by (cases ws') (auto split: if_splits)
next
  case (Cons w ws)
  then show ?case by (auto split: if_splits)
qed

text \<open>A waiting call sleeps through every wake-up that finds the count not positive.\<close>

lemma acquire_sleeps:
  "0 \<le> sint (maxCount s) \<Longrightarrow> sint (count s) + int (releases (concat hs)) \<le> 0 \<Longrightarrow>
   acquire s (wakeups hs s @ ws) = acquire (snd (run (concat hs) s)) ws"
proof (induction hs arbitrary: s)
  case Nil
  then show ?case by simp
next
  case (Cons h hs)
  let ?s1 = "snd (run h s)"
  from Cons.prems(2) have le: "sint (count s) \<le> 0" and
    h: "sint (count s) + int (releases h) \<le> 0"
    by (simp_all add: releases_append)
  have s1: "?s1 = s\<lparr>count := count s + of_nat (releases h), signals := signals s + releases h\<rparr>"
    using run_nonpos [OF Cons.prems(1) h] by simp
  have c1: "sint (count ?s1) = sint (count s) + int (releases h)"
    unfolding s1 using h by (simp add: sint_add_of_nat)
  have "acquire ?s1 (wakeups hs ?s1 @ ws) = acquire (snd (run (concat hs) ?s1)) ws"
    using Cons.prems c1 by (intro Cons.IH) (simp_all add: s1 releases_append)
  with le show ?case by (simp add: run_append)
qed

lemma wakeups_snoc:
  "wakeups (hs @ [h]) s = wakeups hs s @ [snd (run h (snd (run (concat hs) s)))]"
  by (induction hs arbitrary: s) (simp_all add: run_append)

lemma release_at_zero:
  assumes "0 \<le> sint mx"
  shows "release \<lparr>count = 0, maxCount = mx, signals = k\<rparr>
       = \<lparr>count = 1, maxCount = mx, signals = Suc k\<rparr>"
proof (cases "mx = 0")
  case True
  then show ?thesis by (simp add: release_def)
next
  case False
  then have "sint mx \<noteq> 0" by (simp add: signed_eq_0_iff)
  with assms have "0 < sint mx" by simp
  then show ?thesis by (simp add: release_def)
qed

lemma latch_state:
  assumes "k \<le> 2147483648" and "0 \<le> sint mx" and "releases xs \<le> k"
  shows "run xs (CVSemaphore_2 (- of_nat k) mx)
       = (map while_blocked xs,
          \<lparr>count = - of_nat k + of_nat (releases xs), maxCount = mx, signals = releases xs\<rparr>)"
    and "sint (- of_nat k + of_nat (releases xs) :: int32) = int (releases xs) - int k"
proof -
  let ?s0 = "CVSemaphore_2 (- of_nat k) mx"
  have s0: "sint (count ?s0) = - int k"
    using assms(1) by (simp add: CVSemaphore_2_def sint_neg_of_nat_le)
  have le: "sint (count ?s0) + int (releases xs) \<le> 0" using s0 assms(3) by simp
  from run_nonpos [OF _ le] assms(2)
  show "run xs ?s0 = (map while_blocked xs,
      \<lparr>count = - of_nat k + of_nat (releases xs), maxCount = mx, signals = releases xs\<rparr>)"
    by (simp add: CVSemaphore_2_def)
  from sint_add_of_nat [OF le] s0
  show "sint (- of_nat k + of_nat (releases xs) :: int32) = int (releases xs) - int k"
    by (simp add: CVSemaphore_2_def)
qed

lemma latch_blocks:
  assumes k: "k \<le> 2147483648" and mx: "0 \<le> sint mx" and r: "releases (h0 @ concat hs) \<le> k"
  shows "acquire (snd (run h0 (CVSemaphore_2 (- of_nat k) mx)))
           (wakeups hs (snd (run h0 (CVSemaphore_2 (- of_nat k) mx)))) = None"
proof -
  let ?s0 = "CVSemaphore_2 (- of_nat k) mx"
  let ?e = "snd (run h0 ?s0)"
  from r have r0: "releases h0 \<le> k" by (simp add: releases_append)
  have e: "?e = \<lparr>count = - of_nat k + of_nat (releases h0), maxCount = mx, signals = releases h0\<rparr>"
    using latch_state(1) [OF k mx r0] by simp
  have ce: "sint (count ?e) = int (releases h0) - int k"
    unfolding e using latch_state(2) [OF k mx r0] by simp
  have le: "sint (count ?e) + int (releases (concat hs)) \<le> 0"
    using ce r by (simp add: releases_append)
  have mxe: "0 \<le> sint (maxCount ?e)" unfolding e using mx by simp
  have "acquire ?e (wakeups hs ?e @ []) = acquire (snd (run (concat hs) ?e)) []"
    using mxe le by (rule acquire_sleeps)
  also have "snd (run (concat hs) ?e) = snd (run (h0 @ concat hs) ?s0)"
    by (simp add: run_append)
  also have "\<dots> = \<lparr>count = - of_nat k + of_nat (releases (h0 @ concat hs)), maxCount = mx,
      signals = releases (h0 @ concat hs)\<rparr>"
    using latch_state(1) [OF k mx r] by simp
  also have "acquire \<dots> [] = None"
    using latch_state(2) [OF k mx r] r by simp
  finally show ?thesis by simp
qed

lemma latch_wakes:
  assumes k: "k \<le> 2147483648" and mx: "0 \<le> sint mx" and r: "releases (h0 @ concat hs @ h) = k"
  shows "acquire (snd (run h0 (CVSemaphore_2 (- of_nat k) mx)))
           (wakeups (hs @ [h @ [OpRelease]]) (snd (run h0 (CVSemaphore_2 (- of_nat k) mx))) @ later)
         = Some (True, \<lparr>count = 0, maxCount = mx, signals = Suc k\<rparr>)"
proof -
  let ?s0 = "CVSemaphore_2 (- of_nat k) mx"
  let ?e = "snd (run h0 ?s0)"
  let ?hs = "hs @ [h]"
  have rr: "releases (h0 @ concat ?hs) \<le> k" using r by simp
  from r have r0: "releases h0 \<le> k" by (simp add: releases_append)
  have e: "?e = \<lparr>count = - of_nat k + of_nat (releases h0), maxCount = mx, signals = releases h0\<rparr>"
    using latch_state(1) [OF k mx r0] by simp
  have ce: "sint (count ?e) = int (releases h0) - int k"
    unfolding e using latch_state(2) [OF k mx r0] by simp
  have le: "sint (count ?e) + int (releases (concat hs)) \<le> 0"
    using ce r by (simp add: releases_append)
  have mxe: "0 \<le> sint (maxCount ?e)" unfolding e using mx by simp
  let ?e2 = "snd (run (concat hs) ?e)"
  have e2: "?e2 = snd (run (h0 @ concat hs) ?s0)" by (simp add: run_append)
  have r2: "releases (h0 @ concat hs) \<le> k" using r by (simp add: releases_append)
  have e2': "?e2 = \<lparr>count = - of_nat k + of_nat (releases (h0 @ concat hs)), maxCount = mx,
      signals = releases (h0 @ concat hs)\<rparr>"
    unfolding e2 using latch_state(1) [OF k mx r2] by simp
  have ce2: "sint (count ?e2) \<le> 0"
    unfolding e2' using latch_state(2) [OF k mx r2] r2 by simp
  let ?e3 = "snd (run h ?e2)"
  have e3: "?e3 = snd (run (h0 @ concat hs @ h) ?s0)" by (simp add: run_append)
  have "?e3 = \<lparr>count = - of_nat k + of_nat (releases (h0 @ concat hs @ h)), maxCount = mx,
      signals = releases (h0 @ concat hs @ h)\<rparr>"
    unfolding e3 using latch_state(1) [of k mx "h0 @ concat hs @ h"] k mx r by simp
  then have e3': "?e3 = \<lparr>count = 0, maxCount = mx, signals = k\<rparr>"
    using r by simp
  have rel: "release \<lparr>count = 0, maxCount = mx, signals = k\<rparr>
      = \<lparr>count = 1, maxCount = mx, signals = Suc k\<rparr>"
    using mx by (rule release_at_zero)
  have w: "wakeups (hs @ [h @ [OpRelease]]) ?e = wakeups hs ?e @ [snd (run (h @ [OpRelease]) ?e2)]"
    by (rule wakeups_snoc)
  have last: "snd (run (h @ [OpRelease]) ?e2) = \<lparr>count = 1, maxCount = mx, signals = Suc k\<rparr>"
    using e3' rel by (simp add: run_append)
  have "acquire ?e (wakeups (hs @ [h @ [OpRelease]]) ?e @ later)
      = acquire ?e (wakeups hs ?e @ (\<lparr>count = 1, maxCount = mx, signals = Suc k\<rparr> # later))"
    unfolding w last by simp
  also have "\<dots> = acquire ?e2 (\<lparr>count = 1, maxCount = mx, signals = Suc k\<rparr> # later)"
    using mxe le by (rule acquire_sleeps)
  also have "\<dots> = acquire \<lparr>count = 1, maxCount = mx, signals = Suc k\<rparr> later"
    using ce2 by simp
  also have "\<dots> = Some (True, \<lparr>count = 0, maxCount = mx, signals = Suc k\<rparr>)"
    by (simp add: acquire_positive)
  finally show ?thesis .
qed

lemma run_acquires_at_zero:
  "count s = 0 \<Longrightarrow> run (replicate m OpAcquire) s = (replicate m Blocked, s)"
  by (induction m) simp_all

lemma latch_history:
  assumes k: "k \<le> 2147483648" and mx: "0 \<le> sint mx" and r: "releases pre = k"
  shows "run (pre @ OpRelease # replicate (Suc m) OpAcquire) (CVSemaphore_2 (- of_nat k) mx)
       = (map while_blocked pre @ Done # Returned True # replicate m Blocked,
          \<lparr>count = 0, maxCount = mx, signals = Suc k\<rparr>)"
proof -
  have 1: "run pre (CVSemaphore_2 (- of_nat k) mx)
      = (map while_blocked pre, \<lparr>count = 0, maxCount = mx, signals = k\<rparr>)"
    using latch_state(1) [of k mx pre] k mx r by simp
  have 2: "run (OpRelease # replicate (Suc m) OpAcquire) \<lparr>count = 0, maxCount = mx, signals = k\<rparr>
    = (Done # Returned True # replicate m Blocked, \<lparr>count = 0, maxCount = mx, signals = Suc k\<rparr>)"
    by (simp add: release_at_zero [OF mx] run_acquires_at_zero)
  show ?thesis
    unfolding run_append 1 using 2 by simp
qed

lemma latch_spent:
  assumes mx: "0 \<le> sint mx" and r: "releases (concat hs) = 0"
  shows "acquire \<lparr>count = 0, maxCount = mx, signals = k\<rparr>
           (wakeups hs \<lparr>count = 0, maxCount = mx, signals = k\<rparr>) = None"
proof -
  let ?s = "\<lparr>count = 0, maxCount = mx, signals = k\<rparr>"
  have le: "sint (count ?s) + int (releases (concat hs)) \<le> 0" using r by simp
  have mxs: "0 \<le> sint (maxCount ?s)" using mx by simp
  have "acquire ?s (wakeups hs ?s @ []) = acquire (snd (run (concat hs) ?s)) []"
    using mxs le by (rule acquire_sleeps)
  also have "snd (run (concat hs) ?s) = ?s"
    using run_nonpos [OF mxs le] r by simp
  also have "acquire ?s [] = None" by simp
  finally show ?thesis by simp
qed

text \<open>
  C2. Take \<open>n \<ge> 1\<close> (with \<open>-(n-1)\<close> an \<^verbatim>\<open>int\<close>, so \<open>n \<le> 2^31 + 1\<close>) and a semaphore \<open>s0\<close>
  constructed with initial count \<open>-(n-1)\<close>, by the one-argument constructor (the one
  \<^verbatim>\<open>__ares_create_synch\<close> uses) or with a cap \<open>mx \<ge> 0\<close>. Releases, attempts and
  \<^verbatim>\<open>tryAcquire\<close> calls of any threads come in any order.
  \<^item> Before the \<open>n\<close>th release, acquire blocks: in a history with fewer than \<open>n\<close>
    releases every attempt blocks (and every \<^verbatim>\<open>tryAcquire\<close> fails), and a call of
    \<^verbatim>\<open>acquire()\<close> entered after the part \<open>h0\<close> of it does not return, however often it is
    woken (after each segment of \<open>hs\<close>).
  \<^item> A call of \<^verbatim>\<open>acquire()\<close> that went to sleep before the \<open>n\<close>th release and is woken
    after it returns, with success, and leaves the count 0 (\<open>later\<close> are the wake-ups it
    would have had afterwards).
  \<^item> In a history with exactly \<open>n\<close> releases followed by \<open>m+1\<close> attempts, exactly the
    first attempt returns, with success, and the count is then 0.
  \<^item> After that one success, with no further release, a call of \<^verbatim>\<open>acquire()\<close> does not
    return, however often it is woken.
\<close>

theorem vsem_latch:
  assumes "1 \<le> n" and "n \<le> 2147483649"
    and "s0 = CVSemaphore_1 (- of_nat (n - 1)) \<and> mx = 0 \<or>
         s0 = CVSemaphore_2 (- of_nat (n - 1)) mx \<and> 0 \<le> sint mx"
  shows "(releases (h0 @ concat hs) < n \<longrightarrow>
            fst (run (h0 @ concat hs) s0) = map while_blocked (h0 @ concat hs) \<and>
            acquire (snd (run h0 s0)) (wakeups hs (snd (run h0 s0))) = None) \<and>
         (releases (h0 @ concat hs @ h) = n - 1 \<longrightarrow>
            acquire (snd (run h0 s0))
              (wakeups (hs @ [h @ [OpRelease]]) (snd (run h0 s0)) @ later)
            = Some (True, \<lparr>count = 0, maxCount = mx, signals = n\<rparr>)) \<and>
         (releases pre = n - 1 \<longrightarrow>
            run (pre @ OpRelease # replicate (Suc m) OpAcquire) s0
            = (map while_blocked pre @ Done # Returned True # replicate m Blocked,
               \<lparr>count = 0, maxCount = mx, signals = n\<rparr>)) \<and>
         (releases (concat hs') = 0 \<longrightarrow>
            acquire \<lparr>count = 0, maxCount = mx, signals = n\<rparr>
              (wakeups hs' \<lparr>count = 0, maxCount = mx, signals = n\<rparr>) = None)"
proof -
  from assms(1,2) obtain k where k: "n = Suc k" "k \<le> 2147483648"
    by (cases n) simp_all
  from assms(3) have s0: "s0 = CVSemaphore_2 (- of_nat k) mx" and mx: "0 \<le> sint mx"
    using k(1) by (auto simp: CVSemaphore_1_def CVSemaphore_2_def)
  have 1: "fst (run (h0 @ concat hs) s0) = map while_blocked (h0 @ concat hs) \<and>
      acquire (snd (run h0 s0)) (wakeups hs (snd (run h0 s0))) = None"
    if "releases (h0 @ concat hs) < n"
  proof -
    from that k(1) have r: "releases (h0 @ concat hs) \<le> k" by simp
    from latch_state(1) [OF k(2) mx r] latch_blocks [OF k(2) mx r]
    show ?thesis unfolding s0 by simp
  qed
  have 2: "acquire (snd (run h0 s0))
        (wakeups (hs @ [h @ [OpRelease]]) (snd (run h0 s0)) @ later)
      = Some (True, \<lparr>count = 0, maxCount = mx, signals = n\<rparr>)"
    if "releases (h0 @ concat hs @ h) = n - 1"
  proof -
    from that k(1) have r: "releases (h0 @ concat hs @ h) = k" by simp
    from latch_wakes [OF k(2) mx r, of later] show ?thesis unfolding s0 k(1) .
  qed
  have 3: "run (pre @ OpRelease # replicate (Suc m) OpAcquire) s0
      = (map while_blocked pre @ Done # Returned True # replicate m Blocked,
         \<lparr>count = 0, maxCount = mx, signals = n\<rparr>)"
    if "releases pre = n - 1"
  proof -
    from that k(1) have r: "releases pre = k" by simp
    from latch_history [OF k(2) mx r, of m] show ?thesis unfolding s0 k(1) .
  qed
  have 4: "acquire \<lparr>count = 0, maxCount = mx, signals = n\<rparr>
        (wakeups hs' \<lparr>count = 0, maxCount = mx, signals = n\<rparr>) = None"
    if "releases (concat hs') = 0"
    using mx that by (rule latch_spent)
  from 1 2 3 4 show ?thesis by blast
qed

theorem vsem_latch_witness:
  "(1 :: nat) \<le> 3 \<and> (3 :: nat) \<le> 2147483649 \<and>
   releases ([OpAcquire, OpRelease] @ concat [[OpAcquire], [OpRelease, OpTryAcquire]]) < 3 \<and>
   acquire (snd (run [OpAcquire, OpRelease] (CVSemaphore_1 (- 2))))
     (wakeups [[OpAcquire], [OpRelease, OpTryAcquire]]
        (snd (run [OpAcquire, OpRelease] (CVSemaphore_1 (- 2))))) = None \<and>
   releases ([OpAcquire, OpRelease] @ concat [[OpAcquire], [OpRelease, OpTryAcquire]]
               @ [OpAcquire]) = 3 - 1 \<and>
   wakeups ([[OpAcquire], [OpRelease, OpTryAcquire]] @ [[OpAcquire] @ [OpRelease]])
        (snd (run [OpAcquire, OpRelease] (CVSemaphore_1 (- 2))))
     = [\<lparr>count = - 1, maxCount = 0, signals = 1\<rparr>, \<lparr>count = 0, maxCount = 0, signals = 2\<rparr>,
        \<lparr>count = 1, maxCount = 0, signals = 3\<rparr>] \<and>
   acquire (snd (run [OpAcquire, OpRelease] (CVSemaphore_1 (- 2))))
     (wakeups ([[OpAcquire], [OpRelease, OpTryAcquire]] @ [[OpAcquire] @ [OpRelease]])
        (snd (run [OpAcquire, OpRelease] (CVSemaphore_1 (- 2)))) @ [])
     = Some (True, \<lparr>count = 0, maxCount = 0, signals = 3\<rparr>) \<and>
   releases [OpAcquire, OpRelease, OpAcquire, OpRelease] = 3 - 1 \<and>
   run ([OpAcquire, OpRelease, OpAcquire, OpRelease] @ OpRelease # replicate (Suc 1) OpAcquire)
      (CVSemaphore_1 (- 2))
   = ([Blocked, Done, Blocked, Done, Done, Returned True, Blocked],
      \<lparr>count = 0, maxCount = 0, signals = 3\<rparr>) \<and>
   releases (concat [[OpAcquire], [OpTryAcquire]]) = 0 \<and>
   acquire \<lparr>count = 0, maxCount = 0, signals = 3\<rparr>
     (wakeups [[OpAcquire], [OpTryAcquire]] \<lparr>count = 0, maxCount = 0, signals = 3\<rparr>) = None"
  using vsem_latch [of 3 "CVSemaphore_1 (- 2)" 0 "[OpAcquire, OpRelease]"
      "[[OpAcquire], [OpRelease, OpTryAcquire]]" "[OpAcquire]" "[]"
      "[OpAcquire, OpRelease, OpAcquire, OpRelease]" 1 "[[OpAcquire], [OpTryAcquire]]"]
  by (simp add: releases_def CVSemaphore_1_def release_def tryAcquire_def)


subsection \<open>The cap\<close>

lemma exec_op_cap:
  assumes "0 \<le> sint (count s)" and "sint (count s) \<le> sint (maxCount s)" and "maxCount s \<noteq> 0"
  shows "0 \<le> sint (count (snd (exec_op x s))) \<and>
         sint (count (snd (exec_op x s))) \<le> sint (maxCount (snd (exec_op x s))) \<and>
         maxCount (snd (exec_op x s)) = maxCount s"
proof -
  have hi: "sint (maxCount s) \<le> 2147483647" using sint_lt [of "maxCount s"] by simp
  have dec: "sint (count s - 1) = sint (count s) - 1" using assms(1) by (intro sint_pred) simp
  show ?thesis
  proof (cases x)
    case OpAcquire
    with assms dec show ?thesis by (cases "sint (count s) \<le> 0") simp_all
  next
    case OpTryAcquire
    with assms dec show ?thesis by (simp add: tryAcquire_def)
  next
    case OpRelease
    show ?thesis
    proof (cases "sint (count s) < sint (maxCount s)")
      case True
      then have "sint (count s + 1) = sint (count s) + 1" using hi by (intro sint_succ) simp
      with True assms OpRelease show ?thesis by (simp add: release_def)
    next
      case False
      with assms OpRelease show ?thesis by (simp add: release_def)
    qed
  qed
qed

lemma run_cap:
  "0 \<le> sint (count s) \<Longrightarrow> sint (count s) \<le> sint (maxCount s) \<Longrightarrow> maxCount s \<noteq> 0 \<Longrightarrow>
   0 \<le> sint (count (snd (run xs s))) \<and> sint (count (snd (run xs s))) \<le> sint (maxCount s)"
proof (induction xs arbitrary: s)
  case Nil
  then show ?case by simp
next
  case (Cons x xs)
  from exec_op_cap [OF Cons.prems, of x]
  have "0 \<le> sint (count (snd (exec_op x s)))"
    "sint (count (snd (exec_op x s))) \<le> sint (maxCount (snd (exec_op x s)))"
    "maxCount (snd (exec_op x s)) = maxCount s"
    by blast+
  with Cons.IH [of "snd (exec_op x s)"] Cons.prems(3) show ?case by simp
qed

lemma release_at_cap:
  "count s = maxCount s \<Longrightarrow> maxCount s \<noteq> 0 \<Longrightarrow>
   count (release s) = count s \<and> signals (release s) = Suc (signals s)"
  by (simp add: release_def)

text \<open>
  C8, as the claim states it, fails: the constructor stores any initial count, and a
  semaphore constructed as \<^verbatim>\<open>VSem(-3, 5)\<close> has count \<open>-2\<close> after one release.
\<close>

theorem vsem_cap_counterexample:
  "\<not> (0 \<le> sint (count (snd (run [OpRelease] (CVSemaphore_2 (- 3) 5)))) \<and>
      sint (count (snd (run [OpRelease] (CVSemaphore_2 (- 3) 5)))) \<le> sint (5 :: int32))"
  by (simp add: CVSemaphore_2_def release_def)

text \<open>
  C8, amended. For a semaphore constructed with \<open>maxCount = k\<close>, \<open>k\<close> not zero, and an
  initial count \<open>c\<close> with \<open>0 \<le> c \<le> k\<close>: after any history of acquire, tryAcquire and
  release operations, \<open>0 \<le> count \<le> k\<close>. And a release at the cap (for any such
  semaphore \<open>s\<close>) leaves the count as it is and still signals.
\<close>

theorem vsem_cap:
  assumes "0 \<le> sint c" and "sint c \<le> sint k" and "k \<noteq> 0"
  shows "0 \<le> sint (count (snd (run xs (CVSemaphore_2 c k)))) \<and>
         sint (count (snd (run xs (CVSemaphore_2 c k)))) \<le> sint k \<and>
         (count s = maxCount s \<and> maxCount s \<noteq> 0 \<longrightarrow>
            count (release s) = count s \<and> signals (release s) = Suc (signals s))"
  using run_cap [of "CVSemaphore_2 c k" xs] release_at_cap [of s] assms
  by (simp add: CVSemaphore_2_def)

theorem vsem_cap_witness:
  "0 \<le> sint (1 :: int32) \<and> sint (1 :: int32) \<le> sint (2 :: int32) \<and> (2 :: int32) \<noteq> 0 \<and>
   run [OpRelease, OpRelease, OpAcquire, OpTryAcquire, OpAcquire] (CVSemaphore_2 1 2)
     = ([Done, Done, Returned True, Returned True, Blocked],
        \<lparr>count = 0, maxCount = 2, signals = 2\<rparr>) \<and>
   count (release \<lparr>count = 2, maxCount = 2, signals = 1\<rparr>) = 2 \<and>
   signals (release \<lparr>count = 2, maxCount = 2, signals = 1\<rparr>) = 2"
  using vsem_cap [of 1 2 "[OpRelease, OpRelease, OpAcquire, OpTryAcquire, OpAcquire]"
      "\<lparr>count = 2, maxCount = 2, signals = 1\<rparr>"]
  by (simp add: CVSemaphore_2_def release_def tryAcquire_def)

section \<open>The runtime facade\<close>

text \<open>
  C1. What \<^verbatim>\<open>__ares_queue_func\<close> does with its four parameters: it pushes
  \<open>(fp, a, priority)\<close> where \<open>a\<close> is a fresh \<^verbatim>\<open>FuncArg\<close> that holds the synch handle and
  the index, two fields. No captured-args pointer enters the function or the object it
  builds, while the lowering pass declares and calls the symbol with five arguments
  \<open>(synch, args, fn, index, priority)\<close> and the body function loads the captured-args
  pointer from field 2 of the object it is handed.
\<close>

theorem queue_func_pushes_pair:
  "threadPool (ares_queue_func synch fp idx priority rt)
     = threadPool rt @ [(fp, next_addr rt, priority)] \<and>
   map_of (funcArgs (ares_queue_func synch fp idx priority rt)) (next_addr rt)
     = Some (FuncArg synch idx) \<and>
   synchs (ares_queue_func synch fp idx priority rt) = synchs rt"
  by (simp add: ares_queue_func_def ThreadPool_push_def)

lemma create_synch_count:
  "map_of (synchs (snd (ares_create_synch c rt))) (fst (ares_create_synch c rt))
     = Some (CVSemaphore_1 (- (c - 1)))"
  by (simp add: ares_create_synch_def Synch_def)

section \<open>Evaluating the passes\<close>

text \<open>
  The passes are run on concrete modules by rewriting. Each \<open>let\<close> is unfolded only
  after the bound term has been evaluated.
\<close>

lemmas builder_defs = empty_builder_def Function_Create_def BasicBlock_Create_def
  SetInsertPoint_def Create_def createNoOp_def map_blocks_def map_insts_def func_args_def Let_def

lemma HLIRParallelFor_new_empty:
  "HLIRParallelFor_new empty_builder =
    (HLIRParallelFor ''hlir.parallel_for.body'' (Inst 4) 10 (Inst 6) 7 None None,
     Builder
      [Function ''hlir.parallel_for.body'' VoidTy [VoidPtrTy]
        [BasicBlock 0 ''entry''
          [Instruction 1 BitCast [Argument ''hlir.parallel_for.body'' 0]
             (PointerTy (StructTy [VoidPtrTy, I32Ty, VoidPtrTy])),
           Instruction 2 (StructGEP 0) [Inst 1] (PointerTy VoidPtrTy),
           Instruction 3 Load [Inst 2] VoidPtrTy,
           Instruction 4 (StructGEP 1) [Inst 1] (PointerTy I32Ty),
           Instruction 5 (StructGEP 2) [Inst 1] (PointerTy VoidPtrTy),
           Instruction 6 Load [Inst 5] VoidPtrTy,
           Instruction 7 NoOp [] VoidTy,
           Instruction 8 BitCast [Inst 3] VoidPtrTy,
           Instruction 9 Call
             [FunctionV ''__ares_finish_func'', Argument ''hlir.parallel_for.body'' 0] VoidTy,
           Instruction 10 Ret [] VoidTy]]]
      11 (AtEnd 0))"
  supply refl [simproc del: let_simp]
  by (simp add: HLIRParallelFor_new_def builder_defs cong: let_weak_cong)

lemma example_caller_eq:
  "example_caller s e =
    (HLIRParallelFor ''hlir.parallel_for.body'' (Inst 4) 10 (Inst 6) 7 (Some 12) (Some (s, e)),
     Builder
      [Function ''hlir.parallel_for.body'' VoidTy [VoidPtrTy]
        [BasicBlock 0 ''entry''
          [Instruction 1 BitCast [Argument ''hlir.parallel_for.body'' 0]
             (PointerTy (StructTy [VoidPtrTy, I32Ty, VoidPtrTy])),
           Instruction 2 (StructGEP 0) [Inst 1] (PointerTy VoidPtrTy),
           Instruction 3 Load [Inst 2] VoidPtrTy,
           Instruction 4 (StructGEP 1) [Inst 1] (PointerTy I32Ty),
           Instruction 5 (StructGEP 2) [Inst 1] (PointerTy VoidPtrTy),
           Instruction 6 Load [Inst 5] VoidPtrTy,
           Instruction 7 NoOp [] VoidTy,
           Instruction 8 BitCast [Inst 3] VoidPtrTy,
           Instruction 9 Call
             [FunctionV ''__ares_finish_func'', Argument ''hlir.parallel_for.body'' 0] VoidTy,
           Instruction 10 Ret [] VoidTy]],
       Function ''main'' VoidTy []
        [BasicBlock 11 ''entry'' [Instruction 12 NoOp [] VoidTy, Instruction 13 Ret [] VoidTy]]]
      14 (AtEnd 11))"
  supply refl [simproc del: let_simp]
  unfolding example_caller_def HLIRParallelFor_new_empty
  by (simp add: builder_defs cong: let_weak_cong)

lemma exec_blocks_numeral:
  "exec_blocks (numeral k) bbs cur m =
     (case find (\<lambda>bb. bid bb = cur) bbs of
        None \<Rightarrow> None
      | Some bb \<Rightarrow>
         (case exec_insts (insts bb) m of
            None \<Rightarrow> None
          | Some r \<Rightarrow>
             (case fst r of
                Return \<Rightarrow> Some (snd r)
              | Jump t \<Rightarrow> exec_blocks (pred_numeral k) bbs t (snd r)
              | Next \<Rightarrow> None)))"
  by (simp add: numeral_eq_Suc)

lemmas lower_defs = lowerParallelFor_def findExternalValues_def capturedFields_def inst_block_def
  inst_function_def all_insts_def module_insts_def function_blocks_def toInt32_def
  splitBasicBlock_def getTerminator_def isTerminator_def removeFromParent_def

lemmas exec_defs = run_function_def function_blocks_def exec_inst_def exec_opcode_def
  set_reg_def cells_def exec_blocks_numeral

subsection \<open>Parallel-for over an empty range\<close>

text \<open>
  C3. The parallel-for over \<open>[5, 5)\<close> is lowered and the lowered caller is run. The
  caller calls \<^verbatim>\<open>__ares_create_synch(0)\<close>, then \<^verbatim>\<open>__ares_queue_func\<close> once, with index 5,
  then \<^verbatim>\<open>__ares_await_synch\<close>: one iteration is queued for the empty range. The second
  part is the half of the claim that holds: the \<^verbatim>\<open>Synch\<close> that \<^verbatim>\<open>__ares_create_synch(0)\<close>
  makes has count 1, and awaiting it returns without a wait.
\<close>

theorem empty_range_queues_once:
  "Option.bind (lowerParallelFor (fst (example_caller 5 5)) uses (snd (example_caller 5 5)))
     (\<lambda>b. map_option calls (run_function 10 (funcs b) ''main''))
   = Some [(''__ares_create_synch'', [RInt 0]),
           (''__ares_queue_func'',
              [RPtr 2, RPtr 1, RFun ''hlir.parallel_for.body'', RInt 5, RInt 1]),
           (''__ares_await_synch'', [RPtr 2])] \<and>
   ares_create_synch 0 (Runtime [] [] [] [] 100)
     = (100, Runtime [(100, \<lparr>count = 1, maxCount = 0, signals = 0\<rparr>)] [] [] [] 101) \<and>
   ares_await_synch 100 [] (snd (ares_create_synch 0 (Runtime [] [] [] [] 100)))
     = Some (Runtime [] [] [] [] 101)"
proof -
  have "Option.bind (lowerParallelFor (fst (example_caller 5 5)) uses (snd (example_caller 5 5)))
     (\<lambda>b. map_option calls (run_function 10 (funcs b) ''main''))
   = Some [(''__ares_create_synch'', [RInt 0]),
           (''__ares_queue_func'',
              [RPtr 2, RPtr 1, RFun ''hlir.parallel_for.body'', RInt 5, RInt 1]),
           (''__ares_await_synch'', [RPtr 2])]"
    supply refl [simproc del: let_simp]
    unfolding example_caller_eq
    by (simp add: lower_defs builder_defs exec_defs cong: let_weak_cong)
  moreover have "ares_create_synch 0 (Runtime [] [] [] [] 100)
     = (100, Runtime [(100, \<lparr>count = 1, maxCount = 0, signals = 0\<rparr>)] [] [] [] 101)"
    by (simp add: ares_create_synch_def Synch_def CVSemaphore_1_def)
  moreover have "ares_await_synch 100 [] (snd (ares_create_synch 0 (Runtime [] [] [] [] 100)))
     = Some (Runtime [] [] [] [] 101)"
    by (simp add: ares_await_synch_def ares_create_synch_def Synch_def CVSemaphore_1_def)
  ultimately show ?thesis by blast
qed

text \<open>For comparison, the range \<open>[5, 8)\<close>: three iterations, with the indices 5, 6 and 7.\<close>

lemma nonempty_range_queues_each:
  "Option.bind (lowerParallelFor (fst (example_caller 5 8)) uses (snd (example_caller 5 8)))
     (\<lambda>b. map_option calls (run_function 10 (funcs b) ''main''))
   = Some [(''__ares_create_synch'', [RInt 3]),
           (''__ares_queue_func'',
              [RPtr 2, RPtr 1, RFun ''hlir.parallel_for.body'', RInt 5, RInt 1]),
           (''__ares_queue_func'',
              [RPtr 2, RPtr 1, RFun ''hlir.parallel_for.body'', RInt 6, RInt 1]),
           (''__ares_queue_func'',
              [RPtr 2, RPtr 1, RFun ''hlir.parallel_for.body'', RInt 7, RInt 1]),
           (''__ares_await_synch'', [RPtr 2])]"
  supply refl [simproc del: let_simp]
  unfolding example_caller_eq
  by (simp add: lower_defs builder_defs exec_defs cong: let_weak_cong)

subsection \<open>The body function\<close>

text \<open>
  C4. The entry block of the body function after the front end has written two user
  instructions at \<^verbatim>\<open>"insertion"\<close>: the loads, the placeholder, the call of
  \<^verbatim>\<open>__ares_finish_func\<close>, then the user's instructions, then the return. The user's code
  comes after the call that releases the latch and frees the argument object.
\<close>

theorem body_runs_after_finish_func:
  "concat (map insts (function_blocks (funcs example_body) ''hlir.parallel_for.body'')) =
     [Instruction 1 BitCast [Argument ''hlir.parallel_for.body'' 0]
        (PointerTy (StructTy [VoidPtrTy, I32Ty, VoidPtrTy])),
      Instruction 2 (StructGEP 0) [Inst 1] (PointerTy VoidPtrTy),
      Instruction 3 Load [Inst 2] VoidPtrTy,
      Instruction 4 (StructGEP 1) [Inst 1] (PointerTy I32Ty),
      Instruction 5 (StructGEP 2) [Inst 1] (PointerTy VoidPtrTy),
      Instruction 6 Load [Inst 5] VoidPtrTy,
      Instruction 7 NoOp [] VoidTy,
      Instruction 8 BitCast [Inst 3] VoidPtrTy,
      Instruction 9 Call
        [FunctionV ''__ares_finish_func'', Argument ''hlir.parallel_for.body'' 0] VoidTy,
      Instruction 11 (Other ''user.first'') [Inst 4] VoidTy,
      Instruction 12 (Other ''user.second'') [] VoidTy,
      Instruction 10 Ret [] VoidTy]"
  supply refl [simproc del: let_simp]
  unfolding example_body_def HLIRParallelFor_new_empty
  by (simp add: emit_body_def builder_defs function_blocks_def cong: let_weak_cong)

subsection \<open>Capture discovery\<close>

lemma count_list_filter:
  "count_list (filter P xs) y = (if P y then count_list xs y else 0)"
  by (induction xs) auto

lemma count_list_operand_insts:
  "count_list (operand_insts vs) j = count_list vs (Inst j)"
  by (induction vs rule: operand_insts.induct) auto

lemma operand_insts_append:
  "operand_insts (xs @ ys) = operand_insts xs @ operand_insts ys"
  by (induction xs rule: operand_insts.induct) simp_all

lemma external_insts_concat:
  "concat (map (\<lambda>ii. filter P (operand_insts (operands ii))) xs)
     = filter P (operand_insts (concat (map operands xs)))"
  by (induction xs) (simp_all add: operand_insts_append)

lemma external_blocks_concat:
  "concat (map (\<lambda>bi. concat (map (\<lambda>ii. filter P (operand_insts (operands ii))) (insts bi))) bs)
     = filter P (operand_insts (concat (map operands (concat (map insts bs)))))"
  by (induction bs) (simp_all add: external_insts_concat operand_insts_append)

lemma findExternalValues_order:
  "findExternalValues fs f =
     filter (\<lambda>ij. inst_function fs ij \<noteq> Some f)
       (operand_insts (concat (map operands (concat (map insts (function_blocks fs f))))))"
  unfolding findExternalValues_def by (rule external_blocks_concat)

lemma count_list_operands_concat:
  "count_list (operand_insts (concat (map operands xs))) j
     = sum_list (map (\<lambda>ii. count_list (operands ii) (Inst j)) xs)"
  by (induction xs) (simp_all add: operand_insts_append count_list_operand_insts)

lemma findExternalValues_count:
  "count_list (findExternalValues fs f) j =
     (if inst_function fs j \<noteq> Some f then operand_occurrences fs f j else 0)"
  unfolding findExternalValues_order operand_occurrences_def
  by (simp add: count_list_filter count_list_operands_concat)

text \<open>
  C5, as the claim states it, fails: \<open>findExternalValues\<close> pushes every external operand
  it meets. For the body \<^verbatim>\<open>%s = add %x, %x\<close> the list is \<open>[%x, %x]\<close>, and the struct of
  captured arguments gets two fields for the one captured value.
\<close>

theorem findExternalValues_counterexample:
  "\<not> distinct (findExternalValues example_capture ''hlir.parallel_for.body'') \<and>
   length (capturedFields example_capture
            (findExternalValues example_capture ''hlir.parallel_for.body'')) = 2"
  by (simp add: example_capture_def findExternalValues_def capturedFields_def function_blocks_def
      inst_function_def all_insts_def)

text \<open>
  C5, amended. The list \<open>V\<close> holds the operands of the body's instructions that are
  instructions of another function, in the order in which the body uses them and once
  for every use: a value defined outside the body occurs in \<open>V\<close> as often as it occurs as
  an operand in the body, a value defined inside never. The struct of captured arguments
  has one field per entry of \<open>V\<close>.
\<close>

theorem findExternalValues_occurrences:
  "findExternalValues fs f =
     filter (\<lambda>ij. inst_function fs ij \<noteq> Some f)
       (operand_insts (concat (map operands (concat (map insts (function_blocks fs f)))))) \<and>
   count_list (findExternalValues fs f) j =
     (if inst_function fs j \<noteq> Some f then operand_occurrences fs f j else 0) \<and>
   length (capturedFields fs (findExternalValues fs f)) = length (findExternalValues fs f)"
  using findExternalValues_order [of fs f] findExternalValues_count [of fs f j]
  by (simp add: capturedFields_def)

theorem findExternalValues_occurrences_witness:
  "findExternalValues example_capture ''hlir.parallel_for.body'' = [1, 1] \<and>
   inst_function example_capture 1 \<noteq> Some ''hlir.parallel_for.body'' \<and>
   operand_occurrences example_capture ''hlir.parallel_for.body'' 1 = 2 \<and>
   inst_function example_capture 4 = Some ''hlir.parallel_for.body'' \<and>
   count_list (findExternalValues example_capture ''hlir.parallel_for.body'') 4 = 0 \<and>
   capturedFields example_capture (findExternalValues example_capture ''hlir.parallel_for.body'')
     = [I32Ty, I32Ty]"
  using findExternalValues_occurrences [of example_capture "''hlir.parallel_for.body''" 1]
    findExternalValues_occurrences [of example_capture "''hlir.parallel_for.body''" 4]
  by (simp add: example_capture_def findExternalValues_def capturedFields_def function_blocks_def
      inst_function_def all_insts_def operand_occurrences_def find_inst_def module_insts_def)

lemma example_captures_eq:
  "example_captures =
    (HLIRParallelFor ''hlir.parallel_for.body'' (Inst 8) 14 (Inst 10) 11 (Some 2) (Some (0, 4)),
     Builder
      [Function ''main'' VoidTy []
        [BasicBlock 0 ''entry''
          [Instruction 1 (Other ''x'') [] I32Ty, Instruction 2 NoOp [] VoidTy,
           Instruction 3 Ret [] VoidTy]],
       Function ''hlir.parallel_for.body'' VoidTy [VoidPtrTy]
        [BasicBlock 4 ''entry''
          [Instruction 5 BitCast [Argument ''hlir.parallel_for.body'' 0]
             (PointerTy (StructTy [VoidPtrTy, I32Ty, VoidPtrTy])),
           Instruction 6 (StructGEP 0) [Inst 5] (PointerTy VoidPtrTy),
           Instruction 7 Load [Inst 6] VoidPtrTy,
           Instruction 8 (StructGEP 1) [Inst 5] (PointerTy I32Ty),
           Instruction 9 (StructGEP 2) [Inst 5] (PointerTy VoidPtrTy),
           Instruction 10 Load [Inst 9] VoidPtrTy,
           Instruction 11 NoOp [] VoidTy,
           Instruction 12 BitCast [Inst 7] VoidPtrTy,
           Instruction 13 Call
             [FunctionV ''__ares_finish_func'', Argument ''hlir.parallel_for.body'' 0] VoidTy,
           Instruction 15 (Other ''f'') [Inst 1] VoidTy,
           Instruction 16 (Other ''g'') [Inst 1, Inst 8] VoidTy,
           Instruction 14 Ret [] VoidTy]]]
      17 (Before 14))"
  supply refl [simproc del: let_simp]
  by (simp add: example_captures_def HLIRParallelFor_new_def emit_body_def builder_defs
      cong: let_weak_cong)

text \<open>
  The repeated entries of \<open>V\<close> at work: \<^verbatim>\<open>%x\<close> is read by \<^verbatim>\<open>f\<close> and by \<^verbatim>\<open>g\<close>, so \<open>V\<close> holds
  it twice and the argument structure has two fields for it. The first entry redirects
  the user at the head of the use list, \<^verbatim>\<open>g\<close>, to the load of field 0; the second entry
  redirects \<^verbatim>\<open>f\<close> to the load of field 1.
\<close>

lemma captures_follow_use_list:
  "findExternalValues (funcs (snd example_captures)) ''hlir.parallel_for.body'' = [1, 1] \<and>
   map_option
     (\<lambda>b. filter (\<lambda>x. iid x \<in> {15, 16, 19, 21})
             (concat (map insts (function_blocks (funcs b) ''hlir.parallel_for.body''))))
     (lowerParallelFor (fst example_captures) example_captures_uses (snd example_captures))
   = Some [Instruction 19 Load [Inst 18] I32Ty,
           Instruction 21 Load [Inst 20] I32Ty,
           Instruction 15 (Other ''f'') [Inst 21] VoidTy,
           Instruction 16 (Other ''g'') [Inst 19, Inst 8] VoidTy]"
  supply refl [simproc del: let_simp]
  unfolding example_captures_eq
  by (simp add: lower_defs builder_defs liveUses_def find_inst_def replaceUsesOfWith_def
      example_captures_uses_def cong: let_weak_cong)


subsection \<open>A task result with two uses\<close>

text \<open>
  C6. The pass is run on \<^verbatim>\<open>%c = call @fib(10); %y = add %c, 1; %z = mul %c, 2\<close>, where
  \<^verbatim>\<open>%z\<close> is at the head of the use list of \<^verbatim>\<open>%c\<close>. The call of
  \<^verbatim>\<open>__ares_task_await_future\<close> and the load of the return slot land before \<^verbatim>\<open>%z\<close>, after
  \<^verbatim>\<open>%y\<close>, the first instruction that uses the result; \<^verbatim>\<open>%y\<close> now reads the loaded value
  (instruction 15) before the await and the load have run.
\<close>

theorem await_after_first_use:
  "concat (map insts (function_blocks
     (funcs (lowerTask (HLIRTask ''fib'' ''hlir.task_wrapper'') (\<lambda>t. 24) example_task_uses
               example_task)) ''main'')) =
     [Instruction 5 Call [FunctionV ''__ares_alloc'', ConstantInt I64Ty 24] VoidPtrTy,
      Instruction 6 BitCast [Inst 5] (PointerTy (StructTy [VoidPtrTy, I32Ty, I32Ty, I32Ty])),
      Instruction 7 (StructGEP 1) [Inst 6] (PointerTy I32Ty),
      Instruction 8 Load [Inst 7] I32Ty,
      Instruction 9 (StructGEP 3) [Inst 6] (PointerTy I32Ty),
      Instruction 10 Store [ConstantInt I32Ty 10, Inst 9] VoidTy,
      Instruction 11 BitCast [FunctionV ''hlir.task_wrapper''] VoidPtrTy,
      Instruction 12 Call [FunctionV ''__ares_task_queue'', Inst 11, Inst 5] VoidTy,
      Instruction 2 (Other ''add'') [Inst 15, ConstantInt I32Ty 1] I32Ty,
      Instruction 13 Call [FunctionV ''__ares_task_await_future'', Inst 5] VoidTy,
      Instruction 14 (StructGEP 2) [Inst 6] (PointerTy I32Ty),
      Instruction 15 Load [Inst 14] I32Ty,
      Instruction 3 (Other ''mul'') [Inst 15, ConstantInt I32Ty 2] I32Ty,
      Instruction 4 Ret [] VoidTy]"
  supply refl [simproc del: let_simp]
  by (simp add: lowerTask_def lowerTaskCall_def example_task_def example_task_uses_def
      builder_defs find_inst_def module_insts_def all_insts_def inst_function_def
      function_blocks_def replaceAllUsesWith_def replaceUsesOfWith_def removeFromParent_def
      cong: let_weak_cong)

text \<open>
  For comparison, the same module with the use list of \<^verbatim>\<open>%c\<close> in the order of the
  instructions: the await and the load then land before \<^verbatim>\<open>%y\<close>.
\<close>

lemma await_follows_use_list:
  "map iid (concat (map insts (function_blocks
     (funcs (lowerTask (HLIRTask ''fib'' ''hlir.task_wrapper'') (\<lambda>t. 24)
               (\<lambda>v. if v = Inst 1 then [2, 3] else if v = FunctionV ''fib'' then [1] else [])
               example_task)) ''main''))) =
     [5, 6, 7, 8, 9, 10, 11, 12, 13, 14, 15, 2, 3, 4]"
  supply refl [simproc del: let_simp]
  by (simp add: lowerTask_def lowerTaskCall_def example_task_def
      builder_defs find_inst_def module_insts_def all_insts_def inst_function_def
      function_blocks_def replaceAllUsesWith_def replaceUsesOfWith_def removeFromParent_def
      cong: let_weak_cong)

subsection \<open>Parallel-reduce\<close>

lemma all_insts_map_insts:
  "map all_insts (map_insts g fs) = map (\<lambda>f. concat (map (g \<circ> insts) (blocks f))) fs"
  by (simp add: map_insts_def map_blocks_def all_insts_def comp_def)

lemma module_insts_removeFromParent:
  "module_insts (removeFromParent i fs) = filter (\<lambda>x. iid x \<noteq> i) (module_insts fs)"
proof -
  have "module_insts (removeFromParent i fs)
      = concat (map (\<lambda>f. concat (map (filter (\<lambda>x. iid x \<noteq> i) \<circ> insts) (blocks f))) fs)"
    unfolding module_insts_def removeFromParent_def all_insts_map_insts ..
  also have "\<dots> = filter (\<lambda>x. iid x \<noteq> i) (module_insts fs)"
    by (simp add: module_insts_def all_insts_def filter_concat comp_def)
  finally show ?thesis .
qed

lemma removeFromParent_other:
  assumes "i \<notin> iid ` set (all_insts g)"
  shows "Function (fname g) (returnType g) (paramTypes g)
           (map (\<lambda>bb. BasicBlock (bid bb) (label bb) (filter (\<lambda>x. iid x \<noteq> i) (insts bb)))
              (blocks g)) = g"
proof -
  have "filter (\<lambda>x. iid x \<noteq> i) (insts bb) = insts bb" if "bb \<in> set (blocks g)" for bb
    using assms that by (auto simp: all_insts_def filter_id_conv)
  then have "map (\<lambda>bb. BasicBlock (bid bb) (label bb) (filter (\<lambda>x. iid x \<noteq> i) (insts bb)))
      (blocks g) = blocks g"
    by (simp add: map_idI)
  then show ?thesis by simp
qed

lemma removeFromParent_nth:
  assumes "k < length fs" and "i \<notin> iid ` set (all_insts (fs ! k))"
  shows "removeFromParent i fs ! k = fs ! k"
  using assms removeFromParent_other [of i "fs ! k"]
  by (simp add: removeFromParent_def map_insts_def map_blocks_def)

lemma removeFromParent_shape:
  "map fname (removeFromParent i fs) = map fname fs \<and>
   map (map bid \<circ> blocks) (removeFromParent i fs) = map (map bid \<circ> blocks) fs"
  by (simp add: removeFromParent_def map_insts_def map_blocks_def comp_def)

lemma length_filter_distinct:
  "distinct (map g xs) \<Longrightarrow> y \<in> set (map g xs) \<Longrightarrow>
   Suc (length (filter (\<lambda>x. g x \<noteq> y) xs)) = length xs"
proof (induction xs)
  case Nil
  then show ?case by simp
next
  case (Cons x xs)
  show ?case
  proof (cases "g x = y")
    case True
    with Cons.prems have "y \<notin> g ` set xs" by auto
    then have "filter (\<lambda>x. g x \<noteq> y) xs = xs" by (auto simp: filter_id_conv)
    with True show ?thesis by simp
  next
    case False
    with Cons show ?thesis by auto
  qed
qed

lemma removeFromParent_length:
  "length (removeFromParent i fs) = length fs"
  by (simp add: removeFromParent_def map_insts_def map_blocks_def)

lemma removeFromParent_function:
  assumes "k < length fs"
  shows "fname (removeFromParent i fs ! k) = fname (fs ! k) \<and>
         returnType (removeFromParent i fs ! k) = returnType (fs ! k) \<and>
         paramTypes (removeFromParent i fs ! k) = paramTypes (fs ! k) \<and>
         length (blocks (removeFromParent i fs ! k)) = length (blocks (fs ! k))"
  using assms by (simp add: removeFromParent_def map_insts_def map_blocks_def)

lemma removeFromParent_block:
  assumes "k < length fs" and "j < length (blocks (fs ! k))"
  shows "bid (blocks (removeFromParent i fs ! k) ! j) = bid (blocks (fs ! k) ! j) \<and>
         label (blocks (removeFromParent i fs ! k) ! j) = label (blocks (fs ! k) ! j) \<and>
         insts (blocks (removeFromParent i fs ! k) ! j)
           = filter (\<lambda>x. iid x \<noteq> i) (insts (blocks (fs ! k) ! j))"
  using assms by (simp add: removeFromParent_def map_insts_def map_blocks_def)

lemma filter_remove_distinct:
  assumes "distinct (map g (pre @ m # post))"
  shows "filter (\<lambda>x. g x \<noteq> g m) (pre @ m # post) = pre @ post"
proof -
  from assms have "g m \<notin> g ` set pre" "g m \<notin> g ` set post" by auto
  then have "\<forall>x\<in>set pre. g x \<noteq> g m" "\<forall>x\<in>set post. g x \<noteq> g m"
    by (metis imageI)+
  then have "filter (\<lambda>x. g x \<noteq> g m) pre = pre" "filter (\<lambda>x. g x \<noteq> g m) post = post"
    by (simp_all add: filter_id_conv)
  then show ?thesis by simp
qed

lemma distinct_map_concat:
  "distinct (map g (concat xss)) \<Longrightarrow> xs \<in> set xss \<Longrightarrow> distinct (map g xs)"
  by (induction xss) auto

lemma distinct_block_insts:
  assumes "distinct (map iid (module_insts fs))" and "k < length fs"
    and "j < length (blocks (fs ! k))"
  shows "distinct (map iid (insts (blocks (fs ! k) ! j)))"
proof -
  have "all_insts (fs ! k) \<in> set (map all_insts fs)" using assms(2) by simp
  with assms(1) have "distinct (map iid (all_insts (fs ! k)))"
    unfolding module_insts_def by (rule distinct_map_concat)
  moreover have "insts (blocks (fs ! k) ! j) \<in> set (map insts (blocks (fs ! k)))"
    using assms(3) by simp
  ultimately show ?thesis unfolding all_insts_def by (rule distinct_map_concat)
qed

lemma removeFromParent_block_same:
  assumes "k < length fs" and "j < length (blocks (fs ! k))"
    and "i \<notin> iid ` set (insts (blocks (fs ! k) ! j))"
  shows "blocks (removeFromParent i fs ! k) ! j = blocks (fs ! k) ! j"
proof -
  have "filter (\<lambda>x. iid x \<noteq> i) (insts (blocks (fs ! k) ! j)) = insts (blocks (fs ! k) ! j)"
    using assms(3) by (force simp: filter_id_conv)
  with assms(1,2) show ?thesis
    by (simp add: removeFromParent_def map_insts_def map_blocks_def)
qed

text \<open>
  C9. Lowering a parallel-reduce whose marker is \<open>mk\<close>, in a module whose instructions
  have distinct identities, removes that one instruction and changes nothing else:
  \<^item> the module has the same functions in the same order, each with its name, return
    type and parameter types, and each with the same blocks in the same order, with
    their identities and labels;
  \<^item> every block holds the instructions it held, in the same order, without the
    marker: the block \<open>pre @ m # post\<close> with the marker \<open>m\<close> becomes \<open>pre @ post\<close>, and a
    block without the marker is unchanged;
  \<^item> so nothing is emitted (no call of the runtime, no fan-out or combine code), one
    instruction is gone, and every function that does not hold the marker, the reduce
    body among them, is unchanged;
  \<^item> the builder is otherwise untouched.
\<close>

theorem lowerParallelReduce_frame:
  assumes "reduce_marker r = Some mk"
    and "distinct (map iid (module_insts (funcs b)))"
    and "mk \<in> set (map iid (module_insts (funcs b)))"
  shows "\<exists>b'. lowerParallelReduce r b = Some b' \<and>
     module_insts (funcs b') = filter (\<lambda>x. iid x \<noteq> mk) (module_insts (funcs b)) \<and>
     Suc (length (module_insts (funcs b'))) = length (module_insts (funcs b)) \<and>
     length (funcs b') = length (funcs b) \<and>
     (\<forall>k<length (funcs b).
        fname (funcs b' ! k) = fname (funcs b ! k) \<and>
        returnType (funcs b' ! k) = returnType (funcs b ! k) \<and>
        paramTypes (funcs b' ! k) = paramTypes (funcs b ! k) \<and>
        length (blocks (funcs b' ! k)) = length (blocks (funcs b ! k)) \<and>
        (\<forall>j<length (blocks (funcs b ! k)).
           bid (blocks (funcs b' ! k) ! j) = bid (blocks (funcs b ! k) ! j) \<and>
           label (blocks (funcs b' ! k) ! j) = label (blocks (funcs b ! k) ! j) \<and>
           insts (blocks (funcs b' ! k) ! j)
             = filter (\<lambda>x. iid x \<noteq> mk) (insts (blocks (funcs b ! k) ! j)) \<and>
           (\<forall>pre m post. insts (blocks (funcs b ! k) ! j) = pre @ m # post \<and> iid m = mk \<longrightarrow>
              insts (blocks (funcs b' ! k) ! j) = pre @ post) \<and>
           (mk \<notin> iid ` set (insts (blocks (funcs b ! k) ! j)) \<longrightarrow>
              blocks (funcs b' ! k) ! j = blocks (funcs b ! k) ! j)) \<and>
        (mk \<notin> iid ` set (all_insts (funcs b ! k)) \<longrightarrow> funcs b' ! k = funcs b ! k)) \<and>
     fresh b' = fresh b \<and> ip b' = ip b"
proof -
  let ?fs = "funcs b"
  let ?b' = "Builder (removeFromParent mk ?fs) (fresh b) (ip b)"
  have 1: "lowerParallelReduce r b = Some ?b'"
    using assms(1) by (simp add: lowerParallelReduce_def)
  have 2: "module_insts (funcs ?b') = filter (\<lambda>x. iid x \<noteq> mk) (module_insts ?fs)"
    by (simp add: module_insts_removeFromParent)
  have 3: "Suc (length (module_insts (funcs ?b'))) = length (module_insts ?fs)"
    unfolding 2 using assms(2,3) by (rule length_filter_distinct)
  have 4: "length (funcs ?b') = length ?fs"
    by (simp add: removeFromParent_length)
  have 5: "insts (blocks (funcs ?b' ! k) ! j) = pre @ post"
    if "k < length ?fs" "j < length (blocks (?fs ! k))"
      "insts (blocks (?fs ! k) ! j) = pre @ m # post" "iid m = mk" for k j pre m post
  proof -
    have "distinct (map iid (pre @ m # post))"
      using distinct_block_insts [OF assms(2) that(1,2)] that(3) by simp
    then have "filter (\<lambda>x. iid x \<noteq> iid m) (pre @ m # post) = pre @ post"
      by (rule filter_remove_distinct)
    with that removeFromParent_block [OF that(1,2), of mk] show ?thesis by simp
  qed
  have 6: "\<forall>k<length ?fs.
        fname (funcs ?b' ! k) = fname (?fs ! k) \<and>
        returnType (funcs ?b' ! k) = returnType (?fs ! k) \<and>
        paramTypes (funcs ?b' ! k) = paramTypes (?fs ! k) \<and>
        length (blocks (funcs ?b' ! k)) = length (blocks (?fs ! k)) \<and>
        (\<forall>j<length (blocks (?fs ! k)).
           bid (blocks (funcs ?b' ! k) ! j) = bid (blocks (?fs ! k) ! j) \<and>
           label (blocks (funcs ?b' ! k) ! j) = label (blocks (?fs ! k) ! j) \<and>
           insts (blocks (funcs ?b' ! k) ! j)
             = filter (\<lambda>x. iid x \<noteq> mk) (insts (blocks (?fs ! k) ! j)) \<and>
           (\<forall>pre m post. insts (blocks (?fs ! k) ! j) = pre @ m # post \<and> iid m = mk \<longrightarrow>
              insts (blocks (funcs ?b' ! k) ! j) = pre @ post) \<and>
           (mk \<notin> iid ` set (insts (blocks (?fs ! k) ! j)) \<longrightarrow>
              blocks (funcs ?b' ! k) ! j = blocks (?fs ! k) ! j)) \<and>
        (mk \<notin> iid ` set (all_insts (?fs ! k)) \<longrightarrow> funcs ?b' ! k = ?fs ! k)"
  proof (intro allI impI conjI)
    fix k assume k: "k < length ?fs"
    from removeFromParent_function [OF k, of mk]
    show "fname (funcs ?b' ! k) = fname (?fs ! k)"
      "returnType (funcs ?b' ! k) = returnType (?fs ! k)"
      "paramTypes (funcs ?b' ! k) = paramTypes (?fs ! k)"
      "length (blocks (funcs ?b' ! k)) = length (blocks (?fs ! k))"
      by simp_all
    show "funcs ?b' ! k = ?fs ! k" if "mk \<notin> iid ` set (all_insts (?fs ! k))"
      using k that by (simp add: removeFromParent_nth)
    fix j assume j: "j < length (blocks (?fs ! k))"
    from removeFromParent_block [OF k j, of mk]
    show "bid (blocks (funcs ?b' ! k) ! j) = bid (blocks (?fs ! k) ! j)"
      "label (blocks (funcs ?b' ! k) ! j) = label (blocks (?fs ! k) ! j)"
      "insts (blocks (funcs ?b' ! k) ! j)
         = filter (\<lambda>x. iid x \<noteq> mk) (insts (blocks (?fs ! k) ! j))"
      by simp_all
    show "blocks (funcs ?b' ! k) ! j = blocks (?fs ! k) ! j"
      if "mk \<notin> iid ` set (insts (blocks (?fs ! k) ! j))"
      using removeFromParent_block_same [OF k j that] by simp
    fix pre m post
    assume "insts (blocks (?fs ! k) ! j) = pre @ m # post \<and> iid m = mk"
    then show "insts (blocks (funcs ?b' ! k) ! j) = pre @ post"
      using 5 [OF k j] by blast
  qed
  have 7: "fresh ?b' = fresh b" "ip ?b' = ip b" by simp_all
  show ?thesis
    using 1 2 3 4 6 7 by (intro exI [of _ ?b'] conjI) assumption+
qed

lemma example_reduce_eq:
  "example_reduce =
    (HLIRParallelReduce ''hlir.parallel_reduce.body'' 1 (Inst 5) 11 (Inst 7) 8
       (Inst 1) I32Ty (Some 15),
     Builder
      [Function ''hlir.parallel_reduce.body'' I32Ty [VoidPtrTy]
        [BasicBlock 0 ''entry''
          [Instruction 1 (Alloca I32Ty) [] (PointerTy I32Ty),
           Instruction 2 BitCast [Argument ''hlir.parallel_reduce.body'' 0]
             (PointerTy (StructTy [VoidPtrTy, I32Ty, VoidPtrTy])),
           Instruction 3 (StructGEP 0) [Inst 2] (PointerTy VoidPtrTy),
           Instruction 4 Load [Inst 3] VoidPtrTy,
           Instruction 5 (StructGEP 1) [Inst 2] (PointerTy I32Ty),
           Instruction 6 (StructGEP 2) [Inst 2] (PointerTy VoidPtrTy),
           Instruction 7 Load [Inst 6] VoidPtrTy,
           Instruction 8 NoOp [] VoidTy,
           Instruction 9 BitCast [Inst 4] VoidPtrTy,
           Instruction 10 Call
             [FunctionV ''__ares_finish_func'', Argument ''hlir.parallel_reduce.body'' 0] VoidTy,
           Instruction 11 Load [Inst 1] I32Ty,
           Instruction 12 Ret [Inst 11] VoidTy]],
       Function ''main'' VoidTy []
        [BasicBlock 13 ''entry''
          [Instruction 14 (Other ''before'') [] VoidTy,
           Instruction 15 NoOp [] VoidTy,
           Instruction 16 (Other ''after'') [] VoidTy,
           Instruction 17 Ret [] VoidTy]]]
      18 (AtEnd 13))"
  supply refl [simproc del: let_simp]
  by (simp add: example_reduce_def HLIRParallelReduce_new_def builder_defs cong: let_weak_cong)

theorem lowerParallelReduce_frame_witness:
  "reduce_marker (fst example_reduce) = Some 15 \<and>
   distinct (map iid (module_insts (funcs (snd example_reduce)))) \<and>
   15 \<in> set (map iid (module_insts (funcs (snd example_reduce)))) \<and>
   (\<exists>b'. lowerParallelReduce (fst example_reduce) (snd example_reduce) = Some b' \<and>
      map iid (module_insts (funcs b')) = [1, 2, 3, 4, 5, 6, 7, 8, 9, 10, 11, 12, 14, 16, 17] \<and>
      funcs b' ! 0 = funcs (snd example_reduce) ! 0 \<and>
      funcs b' ! 1 =
        Function ''main'' VoidTy []
          [BasicBlock 13 ''entry''
            [Instruction 14 (Other ''before'') [] VoidTy,
             Instruction 16 (Other ''after'') [] VoidTy,
             Instruction 17 Ret [] VoidTy]] \<and>
      length (funcs b') = 2 \<and> fresh b' = 18 \<and> ip b' = AtEnd 13)"
proof -
  let ?b = "snd example_reduce"
  have h: "reduce_marker (fst example_reduce) = Some 15"
    "distinct (map iid (module_insts (funcs ?b)))"
    "15 \<in> set (map iid (module_insts (funcs ?b)))"
    by (simp_all add: example_reduce_eq module_insts_def all_insts_def)
  from lowerParallelReduce_frame [OF h] obtain b' where b':
    "lowerParallelReduce (fst example_reduce) ?b = Some b'"
    "module_insts (funcs b') = filter (\<lambda>x. iid x \<noteq> 15) (module_insts (funcs ?b))"
    "length (funcs b') = length (funcs ?b)"
    "\<forall>k<length (funcs ?b).
        fname (funcs b' ! k) = fname (funcs ?b ! k) \<and>
        returnType (funcs b' ! k) = returnType (funcs ?b ! k) \<and>
        paramTypes (funcs b' ! k) = paramTypes (funcs ?b ! k) \<and>
        length (blocks (funcs b' ! k)) = length (blocks (funcs ?b ! k)) \<and>
        (\<forall>j<length (blocks (funcs ?b ! k)).
           bid (blocks (funcs b' ! k) ! j) = bid (blocks (funcs ?b ! k) ! j) \<and>
           label (blocks (funcs b' ! k) ! j) = label (blocks (funcs ?b ! k) ! j) \<and>
           insts (blocks (funcs b' ! k) ! j)
             = filter (\<lambda>x. iid x \<noteq> 15) (insts (blocks (funcs ?b ! k) ! j)) \<and>
           (\<forall>pre m post. insts (blocks (funcs ?b ! k) ! j) = pre @ m # post \<and> iid m = 15 \<longrightarrow>
              insts (blocks (funcs b' ! k) ! j) = pre @ post) \<and>
           (15 \<notin> iid ` set (insts (blocks (funcs ?b ! k) ! j)) \<longrightarrow>
              blocks (funcs b' ! k) ! j = blocks (funcs ?b ! k) ! j)) \<and>
        (15 \<notin> iid ` set (all_insts (funcs ?b ! k)) \<longrightarrow> funcs b' ! k = funcs ?b ! k)"
    "fresh b' = fresh ?b" "ip b' = ip ?b"
    by blast
  have len: "length (funcs ?b) = 2" by (simp add: example_reduce_eq)
  have "map iid (module_insts (funcs b')) = [1, 2, 3, 4, 5, 6, 7, 8, 9, 10, 11, 12, 14, 16, 17]"
    unfolding b'(2) by (simp add: example_reduce_eq module_insts_def all_insts_def)
  moreover have "funcs b' ! 0 = funcs ?b ! 0"
    using b'(4) len by (simp add: example_reduce_eq all_insts_def)
  moreover have "funcs b' ! 1 =
        Function ''main'' VoidTy []
          [BasicBlock 13 ''entry''
            [Instruction 14 (Other ''before'') [] VoidTy,
             Instruction 16 (Other ''after'') [] VoidTy,
             Instruction 17 Ret [] VoidTy]]"
  proof -
    from b'(4) len have f: "fname (funcs b' ! 1) = ''main''" "returnType (funcs b' ! 1) = VoidTy"
      "paramTypes (funcs b' ! 1) = []" "length (blocks (funcs b' ! 1)) = 1"
      "bid (blocks (funcs b' ! 1) ! 0) = 13" "label (blocks (funcs b' ! 1) ! 0) = ''entry''"
      "insts (blocks (funcs b' ! 1) ! 0) =
         [Instruction 14 (Other ''before'') [] VoidTy,
          Instruction 16 (Other ''after'') [] VoidTy,
          Instruction 17 Ret [] VoidTy]"
      by (simp_all add: example_reduce_eq)
    from f(4) obtain bb where bb: "blocks (funcs b' ! 1) = [bb]"
      by (cases "blocks (funcs b' ! 1)") simp_all
    with f(5-7) have "bb = BasicBlock 13 ''entry''
            [Instruction 14 (Other ''before'') [] VoidTy,
             Instruction 16 (Other ''after'') [] VoidTy,
             Instruction 17 Ret [] VoidTy]"
      by (cases bb) simp
    with bb f(1-3) show ?thesis by (cases "funcs b' ! 1") simp
  qed
  moreover have "length (funcs b') = 2" using b'(3) len by simp
  moreover have "fresh b' = 18" "ip b' = AtEnd 13"
    using b'(5,6) by (simp_all add: example_reduce_eq)
  ultimately show ?thesis using h b'(1) by (intro conjI exI [of _ b']) assumption+
qed

end
